theory Spec2Isabelle
  imports Complex_Main
begin

section \<open>Data model\<close>

text \<open>
  The kiosk front end is TypeScript. A JavaScript \<open>number\<close> is modelled as a \<^typ>\<open>real\<close>
  (finite values, rounding not modelled); \<open>Date.now()\<close> is an integer number of
  milliseconds and is modelled as an \<^typ>\<open>int\<close>; an ISO time stamp
  (\<open>new Date().toISOString()\<close>) and an id made by \<open>Date.now().toString()\<close> are
  modelled by the millisecond count they print, both printings being injective.
  Record fields carry the name of the source field behind a prefix for the record
  (\<open>u_\<close> User, \<open>s_\<close> ChargingSession, \<open>t_\<close> Transaction, \<open>b_\<close> BatteryStatus,
  \<open>h_\<close> HardwareService).
\<close>

record User =
  u_id :: string
  u_name :: string
  u_rfidCardId :: string
  u_balance :: real
  u_phoneNumber :: "string option"
  u_createdAt :: int

datatype session_status = in_progress | completed | stopped

record ChargingSession =
  s_id :: int
  s_userId :: string
  s_userName :: string
  s_paidAmount :: real
  s_targetBattery :: real
  s_startBattery :: real
  s_endBattery :: "real option"
  s_energyDelivered :: real
  s_voltage :: real
  s_current :: real
  s_power :: real
  s_startTime :: int
  s_endTime :: "int option"
  s_status :: session_status
  s_remainingBalance :: real

datatype transaction_type = charge | addition | deduction

text \<open>
  The description of a transaction is a formatted string in the source; the model keeps
  which message it is and the number printed in it.
\<close>

datatype description =
    Charging_session_started real
  | Charging_stopped_by_user
  | Admin_adjusted_balance

record Transaction =
  t_id :: int
  t_userId :: string
  t_userName :: string
  t_type :: transaction_type
  t_amount :: real
  t_timestamp :: int
  t_description :: description
  t_sessionId :: "int option"

record SystemSettings =
  fullChargeCost :: real
  costPerKWh :: real
  defaultBatteryCapacity :: real

record BatteryStatus =
  b_percentage :: real
  b_voltage :: real
  b_current :: real
  b_power :: real

section \<open>The database service (services/database.ts)\<close>

text \<open>
  \<open>db\<close> keeps its lists as JSON strings in \<open>localStorage\<close>. The state below holds the
  parsed values: \<open>USERS\<close> is \<open>None\<close> while the key has no item; for sessions and
  transactions an absent item reads as the empty list, so a plain list is kept.
  \<open>DEFAULT_USERS\<close> is the module-level array of the source. It lives in memory, not in
  the storage, and \<open>getUsers\<close> hands out the array and its objects by reference; the
  state therefore holds its current content.
\<close>

record Database =
  DEFAULT_USERS :: "User list"
  USERS :: "User list option"
  SESSIONS :: "ChargingSession list"
  TRANSACTIONS :: "Transaction list"

definition DEFAULT_SETTINGS :: SystemSettings where
  "DEFAULT_SETTINGS = \<lparr>fullChargeCost = 100, costPerKWh = 10, defaultBatteryCapacity = 5000\<rparr>"

text \<open>The array as the module initialises it, at load time \<open>loaded\<close>.\<close>

definition DEFAULT_USERS_init :: "int \<Rightarrow> User list" where
  "DEFAULT_USERS_init loaded =
     [\<lparr>u_id = ''1'', u_name = ''Lalit Nikumbh'', u_rfidCardId = ''RFID001'', u_balance = 100,
       u_phoneNumber = Some ''+91 9876543212'', u_createdAt = loaded\<rparr>,
      \<lparr>u_id = ''2'', u_name = ''Fateen Shaikh'', u_rfidCardId = ''RFID002'', u_balance = 150,
       u_phoneNumber = Some ''+91 9876543213'', u_createdAt = loaded\<rparr>,
      \<lparr>u_id = ''3'', u_name = ''Nishad Deshmukh'', u_rfidCardId = ''RFID003'', u_balance = 90,
       u_phoneNumber = Some ''+91 9876543214'', u_createdAt = loaded\<rparr>]"

definition requiredUserNames :: "string list" where
  "requiredUserNames = [''Lalit Nikumbh'', ''Fateen Shaikh'', ''Nishad Deshmukh'']"

text \<open>
  An element of an array returned by \<open>getUsers\<close>: the user's value, and \<open>Some j\<close> when the
  element is the object \<open>DEFAULT_USERS[j]\<close> itself rather than a freshly parsed one.
\<close>

type_synonym user_ref = "User \<times> nat option"

definition fresh :: "User \<Rightarrow> user_ref" where
  "fresh u = (u, None)"

definition default_refs :: "Database \<Rightarrow> user_ref list" where
  "default_refs d = zip (DEFAULT_USERS d) (map Some [0..<length (DEFAULT_USERS d)])"

definition saveUsers :: "User list \<Rightarrow> Database \<Rightarrow> Database" where
  "saveUsers users d = d\<lparr>USERS := Some users\<rparr>"

definition getUsers :: "Database \<Rightarrow> user_ref list \<times> Database" where
  "getUsers d =
     (case USERS d of
        None \<Rightarrow> (default_refs d, saveUsers (DEFAULT_USERS d) d)
      | Some users \<Rightarrow>
          let filteredUsers =
                filter (\<lambda>user. u_name user \<noteq> ''John Doe'' \<and> u_name user \<noteq> ''Jane Smith'') users;
              existingNames = map u_name filteredUsers;
              missingUsers =
                filter (\<lambda>defaultUser. u_name (fst defaultUser) \<notin> set existingNames) (default_refs d)
          in if length missingUsers > 0 then
               let mergedUsers = map fresh filteredUsers @ missingUsers
               in (mergedUsers, saveUsers (map fst mergedUsers) d)
             else if length filteredUsers \<noteq> length users then
               (map fresh filteredUsers, saveUsers filteredUsers d)
             else if length filteredUsers < 3 then
               (default_refs d, saveUsers (DEFAULT_USERS d) d)
             else (map fresh filteredUsers, d))"

text \<open>The values of the list \<open>getUsers\<close> returns.\<close>

definition users_of :: "Database \<Rightarrow> User list" where
  "users_of d = map fst (fst (getUsers d))"

definition resetUsers :: "Database \<Rightarrow> Database" where
  "resetUsers d = saveUsers (DEFAULT_USERS d) d"

definition getUserByRfid :: "string \<Rightarrow> Database \<Rightarrow> User option \<times> Database" where
  "getUserByRfid rfidCardId d =
     (let (users, d1) = getUsers d
      in (find (\<lambda>u. u_rfidCardId u = rfidCardId) (map fst users), d1))"

text \<open>
  \<open>xs.find(P)\<close> followed by an assignment to a field of the found object, and
  \<open>xs[xs.findIndex(P)] = f(xs[...])\<close>, both change the first element that satisfies \<open>P\<close>.
\<close>

fun upd_first :: "('a \<Rightarrow> bool) \<Rightarrow> ('a \<Rightarrow> 'a) \<Rightarrow> 'a list \<Rightarrow> 'a list" where
  "upd_first P f [] = []"
| "upd_first P f (x # xs) = (if P x then f x # xs else x # upd_first P f xs)"

text \<open>
  \<open>updateUserBalance\<close> assigns to the found object. When that object is one of
  \<open>DEFAULT_USERS\<close>, the module-level array changes with it.
\<close>

definition updateUserBalance :: "string \<Rightarrow> real \<Rightarrow> Database \<Rightarrow> Database" where
  "updateUserBalance userId newBalance d =
     (let (users, d1) = getUsers d
      in case find (\<lambda>r. u_id (fst r) = userId) users of
           None \<Rightarrow> d1
         | Some (user, shared) \<Rightarrow>
             let user' = user\<lparr>u_balance := newBalance\<rparr>;
                 users' = upd_first (\<lambda>r. u_id (fst r) = userId) (\<lambda>r. (user', snd r)) users;
                 d2 = (case shared of
                         None \<Rightarrow> d1
                       | Some j \<Rightarrow> d1\<lparr>DEFAULT_USERS := (DEFAULT_USERS d1)[j := user']\<rparr>)
             in saveUsers (map fst users') d2)"

subsection \<open>Well-formed states and sample stores\<close>

text \<open>
  No function of the application renames an element of \<open>DEFAULT_USERS\<close> or changes the
  length of the array: \<open>updateUserBalance\<close> only assigns a balance. The names in the
  array are therefore those the module starts with.
\<close>

definition defaults_named :: "Database \<Rightarrow> bool" where
  "defaults_named d = (map u_name (DEFAULT_USERS d) = requiredUserNames)"

definition not_JJ :: "User \<Rightarrow> bool" where
  "not_JJ user = (u_name user \<noteq> ''John Doe'' \<and> u_name user \<noteq> ''Jane Smith'')"

definition normal_users :: "User list \<Rightarrow> bool" where
  "normal_users us = ((\<forall>u \<in> set us. not_JJ u) \<and> set requiredUserNames \<subseteq> set (map u_name us))"

definition fresh_install :: "int \<Rightarrow> Database" where
  "fresh_install loaded =
     \<lparr>DEFAULT_USERS = DEFAULT_USERS_init loaded, USERS = None, SESSIONS = [], TRANSACTIONS = []\<rparr>"

text \<open>The same installation once \<open>getUsers\<close> has run for the first time.\<close>

definition stored_install :: "int \<Rightarrow> Database" where
  "stored_install loaded =
     \<lparr>DEFAULT_USERS = DEFAULT_USERS_init loaded, USERS = Some (DEFAULT_USERS_init loaded),
      SESSIONS = [], TRANSACTIONS = []\<rparr>"

definition legacy_install :: "int \<Rightarrow> Database" where
  "legacy_install loaded =
     \<lparr>DEFAULT_USERS = DEFAULT_USERS_init loaded,
      USERS = Some [\<lparr>u_id = ''1'', u_name = ''John Doe'', u_rfidCardId = ''RFID001'', u_balance = 500,
                     u_phoneNumber = None, u_createdAt = 0\<rparr>,
                    \<lparr>u_id = ''7'', u_name = ''Fateen Shaikh'', u_rfidCardId = ''RFID007'', u_balance = 20,
                     u_phoneNumber = None, u_createdAt = 0\<rparr>],
      SESSIONS = [], TRANSACTIONS = []\<rparr>"

text \<open>The balance that \<open>getUsers\<close> shows for a user id, if it shows the id at all.\<close>

definition stored_balance :: "string \<Rightarrow> Database \<Rightarrow> real option" where
  "stored_balance userId d = map_option u_balance (find (\<lambda>u. u_id u = userId) (users_of d))"

subsection \<open>Sessions and transactions\<close>

definition getSessions :: "Database \<Rightarrow> ChargingSession list" where
  "getSessions d = SESSIONS d"

definition saveSessions :: "ChargingSession list \<Rightarrow> Database \<Rightarrow> Database" where
  "saveSessions sessions d = d\<lparr>SESSIONS := sessions\<rparr>"

definition createSession :: "ChargingSession \<Rightarrow> Database \<Rightarrow> Database" where
  "createSession session d = saveSessions (getSessions d @ [session]) d"

text \<open>
  \<open>updates\<close> is the effect of the spread \<open>{ ...sessions[index], ...updates }\<close> on the
  stored session. Nothing is saved when no session has the id.
\<close>

definition updateSession ::
    "int \<Rightarrow> (ChargingSession \<Rightarrow> ChargingSession) \<Rightarrow> Database \<Rightarrow> Database" where
  "updateSession sessionId updates d =
     (case find (\<lambda>s. s_id s = sessionId) (getSessions d) of
        None \<Rightarrow> d
      | Some _ \<Rightarrow> saveSessions (upd_first (\<lambda>s. s_id s = sessionId) updates (getSessions d)) d)"

definition getActiveSession :: "Database \<Rightarrow> ChargingSession option" where
  "getActiveSession d = find (\<lambda>s. s_status s = in_progress) (getSessions d)"

definition addTransaction :: "Transaction \<Rightarrow> Database \<Rightarrow> Database" where
  "addTransaction transaction d = d\<lparr>TRANSACTIONS := TRANSACTIONS d @ [transaction]\<rparr>"

text \<open>The number of stored sessions whose status is \<open>in_progress\<close>.\<close>

definition in_progress_count :: "Database \<Rightarrow> nat" where
  "in_progress_count d = length (filter (\<lambda>s. s_status s = in_progress) (getSessions d))"

section \<open>The hardware service (services/hardware.ts)\<close>

text \<open>
  The file holds two versions of the service. The one modelled is the first, which talks
  to the Python backend and falls back to a mock mode when the backend does not answer;
  the second is that mock mode alone.

  The record has the fields of \<open>HardwareService\<close> that the charging functions read and
  write; the registered callbacks and the event source are left out.
  \<open>h_startCharging_calls\<close> is not a field of the source: it counts the invocations of
  \<open>startCharging\<close>, the one function of the front end that asks for the relay to be
  switched on, so that theorems can speak of the call being made or not.
\<close>

record HardwareService =
  h_chargingActive :: bool
  h_currentBattery :: real
  h_targetBattery :: real
  h_startTime :: int
  h_energyDelivered :: real
  h_startCharging_calls :: nat

definition hardware_init :: HardwareService where
  "hardware_init = \<lparr>h_chargingActive = False, h_currentBattery = 35, h_targetBattery = 0,
                     h_startTime = 0, h_energyDelivered = 0, h_startCharging_calls = 0\<rparr>"

text \<open>
  The answers of the Python backend are inputs of the model. \<open>Failed\<close> stands for a
  \<open>fetch\<close> that throws or whose response is not ok. One record holds the answers to the
  requests one call of a hardware function makes.
\<close>

datatype 'a fetched = Failed | Ok 'a

record ChargingStatus =
  cs_isCharging :: bool
  cs_currentUser :: "string option"

datatype scan_action = started | stopped_by_scan | no_action

record ScanData =
  sd_action :: scan_action
  sd_rfidCardId :: "string option"

record Backend =
  health :: bool
  health_for_status :: bool
  charging_status :: "ChargingStatus option fetched"
  charging_start :: bool
  charging_stop :: bool
  rfid_scan :: "ScanData fetched"

definition checkBackendAvailable :: "Backend \<Rightarrow> bool" where
  "checkBackendAvailable bk = health bk"

text \<open>\<open>scanRfid\<close> of the hardware service; \<open>x || null\<close> turns the empty string into null.\<close>

definition hardware_scanRfid ::
    "int \<Rightarrow> Backend \<Rightarrow> HardwareService \<Rightarrow> string option \<times> HardwareService" where
  "hardware_scanRfid now bk h =
     (if \<not> checkBackendAvailable bk then (Some ''RFID001'', h)
      else case rfid_scan bk of
             Failed \<Rightarrow> (None, h)
           | Ok data \<Rightarrow>
               let h' = (case sd_action data of
                           started \<Rightarrow> h\<lparr>h_chargingActive := True, h_startTime := now\<rparr>
                         | stopped_by_scan \<Rightarrow> h\<lparr>h_chargingActive := False\<rparr>
                         | no_action \<Rightarrow> h)
               in (case sd_rfidCardId data of
                     None \<Rightarrow> (None, h')
                   | Some c \<Rightarrow> (if c = [] then None else Some c, h')))"

definition getChargingStatus ::
    "Backend \<Rightarrow> HardwareService \<Rightarrow> ChargingStatus option \<times> HardwareService" where
  "getChargingStatus bk h =
     (if \<not> health_for_status bk then (None, h)
      else case charging_status bk of
             Failed \<Rightarrow> (None, h)
           | Ok None \<Rightarrow> (None, h\<lparr>h_chargingActive := False\<rparr>)
           | Ok (Some status) \<Rightarrow> (Some status, h\<lparr>h_chargingActive := cs_isCharging status\<rparr>))"

text \<open>
  \<open>Math.round(x)\<close> is \<open>\<lfloor>x + 1/2\<rfloor>\<close>. The two calls of \<open>Math.random()\<close> are the inputs
  \<open>r1\<close> and \<open>r2\<close>.
\<close>

definition Math_round :: "real \<Rightarrow> real" where
  "Math_round x = of_int \<lfloor>x + 1 / 2\<rfloor>"

definition getBatteryStatus :: "real \<Rightarrow> real \<Rightarrow> HardwareService \<Rightarrow> BatteryStatus" where
  "getBatteryStatus r1 r2 h =
     (let voltage = 48 + r1 * 4;
          current = (if h_chargingActive h then 40 + r2 * 10 else 0);
          power = voltage * current
      in \<lparr>b_percentage = h_currentBattery h,
          b_voltage = Math_round (voltage * 10) / 10,
          b_current = Math_round (current * 10) / 10,
          b_power = Math_round power\<rparr>)"

definition startCharging ::
    "int \<Rightarrow> Backend \<Rightarrow> real \<Rightarrow> HardwareService \<Rightarrow> bool \<times> HardwareService" where
  "startCharging now bk targetBattery h =
     (let h1 = h\<lparr>h_targetBattery := targetBattery, h_startTime := now, h_energyDelivered := 0,
                 h_startCharging_calls := Suc (h_startCharging_calls h)\<rparr>
      in if \<not> checkBackendAvailable bk then (True, h1\<lparr>h_chargingActive := True\<rparr>)
         else let (status, h2) = getChargingStatus bk h1
              in case status of
                   None \<Rightarrow> (False, h2)
                 | Some st \<Rightarrow>
                     (case cs_currentUser st of
                        None \<Rightarrow> (False, h2)
                      | Some userId \<Rightarrow>
                          if charging_start bk then (True, h2\<lparr>h_chargingActive := True\<rparr>)
                          else (False, h2)))"

definition stopCharging :: "Backend \<Rightarrow> HardwareService \<Rightarrow> bool \<times> HardwareService" where
  "stopCharging bk h =
     (if \<not> checkBackendAvailable bk then (True, h\<lparr>h_chargingActive := False\<rparr>)
      else if charging_stop bk then (True, h\<lparr>h_chargingActive := False\<rparr>)
      else (False, h))"

text \<open>
  \<open>simulateCharging\<close> at time \<open>now\<close>. Its call of \<open>stopCharging\<close> is not awaited in the
  source; the model lets it finish within the call.
\<close>

definition simulateCharging :: "int \<Rightarrow> Backend \<Rightarrow> HardwareService \<Rightarrow> HardwareService" where
  "simulateCharging now bk h =
     (if \<not> h_chargingActive h then h
      else let elapsedHours = real_of_int (now - h_startTime h) / (1000 * 60 * 60);
               powerW = 2000;
               energyWh = powerW * elapsedHours;
               batteryIncrease = (energyWh / 5000) * 100;
               h1 = h\<lparr>h_energyDelivered := energyWh,
                       h_currentBattery :=
                         min (h_currentBattery h + batteryIncrease * 0.5) (h_targetBattery h)\<rparr>
           in if h_currentBattery h1 \<ge> h_targetBattery h1 then snd (stopCharging bk h1) else h1)"

definition getEnergyDelivered :: "HardwareService \<Rightarrow> real" where
  "getEnergyDelivered h = h_energyDelivered h"

text \<open>The energy \<open>simulateCharging\<close> computes at time \<open>now\<close> for a charge started at \<open>start\<close>.\<close>

definition energy_at :: "int \<Rightarrow> int \<Rightarrow> real" where
  "energy_at now start = 2000 * (real_of_int (now - start) / (1000 * 60 * 60))"

text \<open>
  \<open>h'\<close> has the start time, target, battery level and energy of \<open>h\<close>, and is
  charging only if \<open>h\<close> is.
\<close>

definition same_charge :: "HardwareService \<Rightarrow> HardwareService \<Rightarrow> bool" where
  "same_charge h h' =
     (h_startTime h' = h_startTime h \<and> h_targetBattery h' = h_targetBattery h
      \<and> h_currentBattery h' = h_currentBattery h \<and> h_energyDelivered h' = h_energyDelivered h
      \<and> (h_chargingActive h' \<longrightarrow> h_chargingActive h))"

section \<open>The application state and its handlers\<close>

text \<open>
  The state of the running page: the database and hardware services, the state held by
  \<open>AppProvider\<close> (context/AppContext.tsx) and the amount selected on the cost selection
  screen (components/CostSelectionScreen.tsx). A handler is modelled as one step: what
  the source awaits is taken to finish before the next handler runs, and all readings of
  \<open>Date.now()\<close> inside one handler are the one input \<open>now\<close>. The transient flag
  \<open>processing\<close> and the text of the custom amount field are left out.
\<close>

record Kiosk =
  db :: Database
  hardware :: HardwareService
  currentUser :: "User option"
  currentSession :: "ChargingSession option"
  settings :: SystemSettings
  batteryStatus :: "BatteryStatus option"
  selectedAmount :: "real option"

subsection \<open>AppContext.tsx\<close>

definition refreshBatteryStatus :: "real \<Rightarrow> real \<Rightarrow> Kiosk \<Rightarrow> Kiosk" where
  "refreshBatteryStatus r1 r2 k = k\<lparr>batteryStatus := Some (getBatteryStatus r1 r2 (hardware k))\<rparr>"

text \<open>\<open>batteryStatus?.percentage || null\<close>: null without a status and for a percentage of 0.\<close>

definition percentage_or_null :: "BatteryStatus option \<Rightarrow> real option" where
  "percentage_or_null bs =
     (case bs of None \<Rightarrow> None
      | Some b \<Rightarrow> if b_percentage b = 0 then None else Some (b_percentage b))"

text \<open>\<open>batteryStatus?.f || 0\<close> for a numeric field \<open>f\<close>.\<close>

definition or_zero :: "(BatteryStatus \<Rightarrow> real) \<Rightarrow> BatteryStatus option \<Rightarrow> real" where
  "or_zero f bs = (case bs of None \<Rightarrow> 0 | Some b \<Rightarrow> f b)"

text \<open>\<open>stopCharging\<close> of the context, with the status it is called with.\<close>

definition context_stopCharging :: "session_status \<Rightarrow> int \<Rightarrow> Backend \<Rightarrow> Kiosk \<Rightarrow> Kiosk" where
  "context_stopCharging status now bk k =
     (case currentSession k of
        None \<Rightarrow> k
      | Some session \<Rightarrow>
          let updatedSession = session\<lparr>s_status := status, s_endTime := Some now,
                                       s_endBattery := percentage_or_null (batteryStatus k),
                                       s_energyDelivered := getEnergyDelivered (hardware k)\<rparr>
          in k\<lparr>db := updateSession (s_id session) (\<lambda>_. updatedSession) (db k),
                hardware := snd (stopCharging bk (hardware k)),
                currentSession := Some updatedSession\<rparr>)"

text \<open>
  The body of the one second interval, without its call of \<open>refreshBatteryStatus\<close>,
  whose result arrives later and is the step \<open>refreshBatteryStatus\<close> above. \<open>bk\<close>
  answers the requests of \<open>simulateCharging\<close>, \<open>bk'\<close> those of the stop.
\<close>

definition metering_tick :: "int \<Rightarrow> Backend \<Rightarrow> Backend \<Rightarrow> Kiosk \<Rightarrow> Kiosk" where
  "metering_tick now bk bk' k =
     (case currentSession k of
        None \<Rightarrow> k
      | Some session \<Rightarrow>
          if s_status session \<noteq> in_progress then k
          else let h1 = simulateCharging now bk (hardware k);
                   energy = getEnergyDelivered h1;
                   battery = or_zero b_percentage (batteryStatus k);
                   d1 = updateSession (s_id session)
                          (\<lambda>s. s\<lparr>s_energyDelivered := energy,
                                 s_current := or_zero b_current (batteryStatus k),
                                 s_voltage := or_zero b_voltage (batteryStatus k),
                                 s_power := or_zero b_power (batteryStatus k)\<rparr>) (db k);
                   k1 = k\<lparr>db := d1, hardware := h1\<rparr>
               in if battery \<ge> s_targetBattery session
                  then context_stopCharging completed now bk' k1
                  else k1)"

definition scanRfid :: "int \<Rightarrow> Backend \<Rightarrow> Kiosk \<Rightarrow> Kiosk" where
  "scanRfid now bk k =
     (let (rfidCardId, h1) = hardware_scanRfid now bk (hardware k)
      in case rfidCardId of
           None \<Rightarrow> k\<lparr>hardware := h1\<rparr>
         | Some c \<Rightarrow>
             let (user, d1) = getUserByRfid c (db k)
             in case user of
                  None \<Rightarrow> k\<lparr>hardware := h1, db := d1\<rparr>
                | Some u \<Rightarrow> k\<lparr>hardware := h1, db := d1, currentUser := Some u\<rparr>)"

subsection \<open>AuthScreen.tsx and the event stream\<close>

text \<open>
  An event of the stream \<open>/rfid/stream\<close>. The user of an event may come without
  \<open>createdAt\<close>.
\<close>

datatype rfid_event_type = rfid_detected | charging_started | charging_stopped | insufficient_balance

record EventUser =
  eu_id :: string
  eu_name :: string
  eu_balance :: real
  eu_rfidCardId :: string
  eu_phoneNumber :: "string option"
  eu_createdAt :: "int option"

record RfidEvent =
  re_type :: rfid_event_type
  re_user :: "EventUser option"
  re_success :: bool

text \<open>\<open>onmessage\<close> of the hardware service, before it notifies the callbacks.\<close>

definition hardware_onmessage :: "int \<Rightarrow> RfidEvent \<Rightarrow> HardwareService \<Rightarrow> HardwareService" where
  "hardware_onmessage now ev h =
     (case re_type ev of
        charging_started \<Rightarrow> h\<lparr>h_chargingActive := True, h_startTime := now\<rparr>
      | charging_stopped \<Rightarrow> h\<lparr>h_chargingActive := False\<rparr>
      | _ \<Rightarrow> h)"

text \<open>Mounting the authentication screen: \<open>useMemo(() => db.getUsers(), [])\<close>.\<close>

definition authScreen_mount :: "Kiosk \<Rightarrow> Kiosk" where
  "authScreen_mount k = k\<lparr>db := snd (getUsers (db k))\<rparr>"

text \<open>
  The callback of the authentication screen. An event that does not log a user in only
  sets the error text of the screen, which the state does not hold.
\<close>

definition handleRfidEvent :: "int \<Rightarrow> RfidEvent \<Rightarrow> Kiosk \<Rightarrow> Kiosk" where
  "handleRfidEvent now ev k =
     (case currentUser k of
        Some _ \<Rightarrow> k
      | None \<Rightarrow>
          (case re_type ev of
             rfid_detected \<Rightarrow>
               (case re_user ev of
                  None \<Rightarrow> k
                | Some eu \<Rightarrow>
                    if re_success ev then
                      k\<lparr>currentUser :=
                          Some \<lparr>u_id = eu_id eu, u_name = eu_name eu,
                                u_rfidCardId = eu_rfidCardId eu, u_balance = eu_balance eu,
                                u_phoneNumber = eu_phoneNumber eu,
                                u_createdAt = (case eu_createdAt eu of None \<Rightarrow> now | Some c \<Rightarrow> c)\<rparr>\<rparr>
                    else k)
           | _ \<Rightarrow> k))"

definition rfid_message :: "int \<Rightarrow> RfidEvent \<Rightarrow> Kiosk \<Rightarrow> Kiosk" where
  "rfid_message now ev k = handleRfidEvent now ev (k\<lparr>hardware := hardware_onmessage now ev (hardware k)\<rparr>)"

subsection \<open>CostSelectionScreen.tsx\<close>

text \<open>
  With \<open>fullChargeCost = 0\<close> and a positive amount JavaScript computes
  \<open>amount / 0 = Infinity\<close> and \<open>Math.min(Infinity, 100) = 100\<close>, where a division by zero
  is 0 in HOL; the first branch says so. With \<open>fullChargeCost = 0\<close> and an amount that is
  not positive the source yields \<open>NaN\<close> or \<open>-Infinity\<close>, which no real number stands
  for; the screen only ever selects a positive amount (a preset, or a custom amount
  that has passed \<open>num > 0\<close>).
\<close>

definition calculateTargetBattery :: "real \<Rightarrow> real \<Rightarrow> real \<Rightarrow> real" where
  "calculateTargetBattery fullChargeCost' currentBattery amount =
     (if fullChargeCost' = 0 \<and> amount > 0 then 100
      else let batteryIncrease = (amount / fullChargeCost') * 100
           in min (currentBattery + batteryIncrease) 100)"

text \<open>\<open>currentUser?.balance || 0\<close>.\<close>

definition balance_or_zero :: "User option \<Rightarrow> real" where
  "balance_or_zero u = (case u of None \<Rightarrow> 0 | Some user \<Rightarrow> u_balance user)"

text \<open>Mounting the screen: \<open>useState<number | null>(null)\<close>.\<close>

definition openCostSelection :: "Kiosk \<Rightarrow> Kiosk" where
  "openCostSelection k = k\<lparr>selectedAmount := None\<rparr>"

definition handleAmountSelect :: "real \<Rightarrow> Kiosk \<Rightarrow> Kiosk" where
  "handleAmountSelect amount k =
     (if amount > balance_or_zero (currentUser k) then k
      else k\<lparr>selectedAmount := Some amount\<rparr>)"

text \<open>The argument is \<open>parseFloat(value)\<close>, \<open>None\<close> for \<open>NaN\<close>.\<close>

definition handleCustomAmount :: "real option \<Rightarrow> Kiosk \<Rightarrow> Kiosk" where
  "handleCustomAmount parsed k =
     (case parsed of
        None \<Rightarrow> k\<lparr>selectedAmount := None\<rparr>
      | Some num \<Rightarrow>
          if num > 0 then
            (if num > balance_or_zero (currentUser k) then k
             else k\<lparr>selectedAmount := Some num\<rparr>)
          else k\<lparr>selectedAmount := None\<rparr>)"

text \<open>The session object \<open>handleConfirm\<close> builds.\<close>

definition new_session :: "int \<Rightarrow> User \<Rightarrow> real \<Rightarrow> Kiosk \<Rightarrow> ChargingSession" where
  "new_session now user amount k =
     \<lparr>s_id = now,
      s_userId = u_id user,
      s_userName = u_name user,
      s_paidAmount = amount,
      s_targetBattery =
        calculateTargetBattery (fullChargeCost (settings k))
          (or_zero b_percentage (batteryStatus k)) amount,
      s_startBattery = or_zero b_percentage (batteryStatus k),
      s_endBattery = None,
      s_energyDelivered = 0,
      s_voltage = or_zero b_voltage (batteryStatus k),
      s_current = or_zero b_current (batteryStatus k),
      s_power = or_zero b_power (batteryStatus k),
      s_startTime = now,
      s_endTime = None,
      s_status = in_progress,
      s_remainingBalance = u_balance user - amount\<rparr>"

text \<open>
  \<open>handleConfirm\<close>. \<open>!selectedAmount\<close> holds for null and for 0. The result of
  \<open>hardware.startCharging\<close> is awaited and dropped; the function does not throw, so the
  \<open>catch\<close> branch has no step of its own.
\<close>

definition handleConfirm :: "int \<Rightarrow> Backend \<Rightarrow> Kiosk \<Rightarrow> Kiosk" where
  "handleConfirm now bk k =
     (case (selectedAmount k, currentUser k) of
        (Some amount, Some user) \<Rightarrow>
          if amount = 0 then k
          else
            let newBalance = u_balance user - amount;
                d1 = updateUserBalance (u_id user) newBalance (db k);
                session = new_session now user amount k;
                d2 = createSession session d1;
                d3 = addTransaction
                       \<lparr>t_id = now, t_userId = u_id user, t_userName = u_name user,
                        t_type = charge, t_amount = - amount, t_timestamp = now,
                        t_description = Charging_session_started (s_targetBattery session),
                        t_sessionId = Some (s_id session)\<rparr> d2;
                (ok, h1) = startCharging now bk (s_targetBattery session) (hardware k)
            in k\<lparr>db := d3, hardware := h1,
                  currentUser := Some (user\<lparr>u_balance := newBalance\<rparr>),
                  currentSession := Some session\<rparr>
      | _ \<Rightarrow> k)"

subsection \<open>ChargingScreen.tsx\<close>

definition handleStop :: "int \<Rightarrow> Backend \<Rightarrow> Kiosk \<Rightarrow> Kiosk" where
  "handleStop now bk k =
     (case currentSession k of
        None \<Rightarrow> k
      | Some session \<Rightarrow>
          let d1 = updateSession (s_id session)
                     (\<lambda>s. s\<lparr>s_status := stopped, s_endTime := Some now,
                            s_endBattery := percentage_or_null (batteryStatus k),
                            s_energyDelivered := getEnergyDelivered (hardware k)\<rparr>) (db k);
              d2 = addTransaction
                     \<lparr>t_id = now, t_userId = s_userId session, t_userName = s_userName session,
                      t_type = charge, t_amount = 0, t_timestamp = now,
                      t_description = Charging_stopped_by_user,
                      t_sessionId = Some (s_id session)\<rparr> d1
          in k\<lparr>db := d2, hardware := snd (stopCharging bk (hardware k)),
                currentSession := None\<rparr>)"

subsection \<open>Runs of the application\<close>

datatype event =
    OpenAuthScreen
  | ScanRfid int Backend
  | Message int RfidEvent
  | OpenCostSelection
  | AmountSelect real
  | CustomAmount "real option"
  | Confirm int Backend
  | RefreshBattery real real
  | Tick int Backend Backend
  | Stop int Backend

fun step :: "event \<Rightarrow> Kiosk \<Rightarrow> Kiosk" where
  "step OpenAuthScreen k = authScreen_mount k"
| "step (ScanRfid now bk) k = scanRfid now bk k"
| "step (Message now ev) k = rfid_message now ev k"
| "step OpenCostSelection k = openCostSelection k"
| "step (AmountSelect amount) k = handleAmountSelect amount k"
| "step (CustomAmount parsed) k = handleCustomAmount parsed k"
| "step (Confirm now bk) k = handleConfirm now bk k"
| "step (RefreshBattery r1 r2) k = refreshBatteryStatus r1 r2 k"
| "step (Tick now bk bk') k = metering_tick now bk bk' k"
| "step (Stop now bk) k = handleStop now bk k"

fun run :: "event list \<Rightarrow> Kiosk \<Rightarrow> Kiosk" where
  "run [] k = k"
| "run (e # es) k = run es (step e k)"

text \<open>Every \<open>Confirm\<close> of the run meets a store without an \<open>in_progress\<close> session.\<close>

fun confirms_when_idle :: "event list \<Rightarrow> Kiosk \<Rightarrow> bool" where
  "confirms_when_idle [] k = True"
| "confirms_when_idle (e # es) k =
     ((case e of Confirm now bk \<Rightarrow> getActiveSession (db k) = None | _ \<Rightarrow> True)
      \<and> confirms_when_idle es (step e k))"

text \<open>
  An event that is not a metering tick and gives the charge no new start: not a
  confirmation, not a scan that the backend answers with the action \<open>started\<close>, not
  an event \<open>charging_started\<close> of the stream.
\<close>

fun keeps_charge_start :: "event \<Rightarrow> bool" where
  "keeps_charge_start (Confirm now bk) = False"
| "keeps_charge_start (Tick now bk bk') = False"
| "keeps_charge_start (ScanRfid now bk) =
     (\<not> (checkBackendAvailable bk
          \<and> (case rfid_scan bk of Failed \<Rightarrow> False | Ok data \<Rightarrow> sd_action data = started)))"
| "keeps_charge_start (Message now ev) = (re_type ev \<noteq> charging_started)"
| "keeps_charge_start OpenAuthScreen = True"
| "keeps_charge_start OpenCostSelection = True"
| "keeps_charge_start (AmountSelect amount) = True"
| "keeps_charge_start (CustomAmount parsed) = True"
| "keeps_charge_start (RefreshBattery r1 r2) = True"
| "keeps_charge_start (Stop now bk) = True"

text \<open>The energy the store records for the session the context holds as current.\<close>

definition recorded_energy :: "Kiosk \<Rightarrow> real option" where
  "recorded_energy k =
     (case currentSession k of
        None \<Rightarrow> None
      | Some session \<Rightarrow>
          map_option s_energyDelivered (find (\<lambda>s. s_id s = s_id session) (SESSIONS (db k))))"

text \<open>
  \<open>k'\<close> has the current session and the stored sessions of \<open>k\<close>, or no current
  session at all.
\<close>

definition session_kept :: "Kiosk \<Rightarrow> Kiosk \<Rightarrow> bool" where
  "session_kept k k' =
     ((currentSession k' = currentSession k \<and> SESSIONS (db k') = SESSIONS (db k))
      \<or> currentSession k' = None)"

text \<open>The metering tick finds a current session in progress.\<close>

definition tick_fires :: "Kiosk \<Rightarrow> bool" where
  "tick_fires k = (case currentSession k of None \<Rightarrow> False | Some c \<Rightarrow> s_status c = in_progress)"

text \<open>
  The page after loading, on a storage without items: \<open>AppProvider\<close> has found no
  active session, and no screen is mounted yet.
\<close>

definition kiosk_init :: "int \<Rightarrow> Kiosk" where
  "kiosk_init loaded =
     \<lparr>db = fresh_install loaded, hardware = hardware_init, currentUser = None,
      currentSession = None, settings = DEFAULT_SETTINGS, batteryStatus = None,
      selectedAmount = None\<rparr>"

section \<open>The identity source\<close>

text \<open>
  Modelled from the spec: the debounced card reader. The reader loop is part of the
  Python backend (\<open>backend/rfid_service.py\<close>), which is not among the sources; the front
  end only receives its events. The specification says: on a raw read whose token
  differs from the last-seen token, or whose token matches but the debounce window has
  elapsed, an identity event is emitted. Whether a read that is not emitted restarts the
  window is not said; \<open>restart\<close> chooses. The window is a parameter, 2000 milliseconds
  by default.
\<close>

record IdentitySource =
  lastToken :: "string option"
  lastSeen :: int

definition DEBOUNCE_DEFAULT :: int where
  "DEBOUNCE_DEFAULT = 2000"

definition source_init :: IdentitySource where
  "source_init = \<lparr>lastToken = None, lastSeen = 0\<rparr>"

definition raw_read ::
    "int \<Rightarrow> bool \<Rightarrow> string \<Rightarrow> int \<Rightarrow> IdentitySource \<Rightarrow> bool \<times> IdentitySource" where
  "raw_read window restart token t src =
     (if lastToken src \<noteq> Some token \<or> t - lastSeen src \<ge> window
      then (True, \<lparr>lastToken = Some token, lastSeen = t\<rparr>)
      else (False, if restart then src\<lparr>lastSeen := t\<rparr> else src))"

text \<open>The number of identity events a sequence of raw reads gives rise to.\<close>

fun emitted :: "int \<Rightarrow> bool \<Rightarrow> (string \<times> int) list \<Rightarrow> IdentitySource \<Rightarrow> nat" where
  "emitted window restart [] src = 0"
| "emitted window restart ((token, t) # reads) src =
     (let (event, src') = raw_read window restart token t src
      in (if event then 1 else 0) + emitted window restart reads src')"

section \<open>Sample states and inputs\<close>

text \<open>
  Lalit Nikumbh is logged in on a fresh installation, the battery status reads 35 percent
  and 40 rupees are selected. The state is the one after the authentication screen has
  been mounted, the battery status has arrived, the mock reader has returned the card
  RFID001 and the amount has been chosen on the cost selection screen.
\<close>

definition kiosk_at_35 :: Kiosk where
  "kiosk_at_35 =
     (kiosk_init 0)\<lparr>db := stored_install 0,
                    currentUser := Some (DEFAULT_USERS_init 0 ! 0),
                    batteryStatus := Some \<lparr>b_percentage = 35, b_voltage = 50, b_current = 0, b_power = 0\<rparr>,
                    selectedAmount := Some 40\<rparr>"

text \<open>No backend answers: the hardware service works in its mock mode.\<close>

definition mock_backend :: Backend where
  "mock_backend = \<lparr>health = False, health_for_status = False, charging_status = Failed,
                    charging_start = False, charging_stop = False, rfid_scan = Failed\<rparr>"

text \<open>
  A backend that answers every request; its card reader returns a card no user has. The
  second one refuses to start the charge.
\<close>

definition live_backend :: Backend where
  "live_backend = \<lparr>health = True, health_for_status = True,
                    charging_status = Ok (Some \<lparr>cs_isCharging = False, cs_currentUser = Some ''1''\<rparr>),
                    charging_start = True, charging_stop = True,
                    rfid_scan = Ok \<lparr>sd_action = no_action, sd_rfidCardId = Some ''RFID999''\<rparr>\<rparr>"

definition failing_backend :: Backend where
  "failing_backend = live_backend\<lparr>charging_start := False\<rparr>"

text \<open>The event the backend sends for a known card without balance.\<close>

definition unfunded_event :: RfidEvent where
  "unfunded_event = \<lparr>re_type = insufficient_balance, re_user = None, re_success = False\<rparr>"

text \<open>
  The event the backend sends when it has read the card of Lalit Nikumbh and its own user
  list gives him a balance of 150, and the user the authentication screen makes of it at
  time 500.
\<close>

definition sheet_event :: RfidEvent where
  "sheet_event =
     \<lparr>re_type = rfid_detected,
      re_user = Some \<lparr>eu_id = ''1'', eu_name = ''Lalit Nikumbh'', eu_balance = 150,
                      eu_rfidCardId = ''RFID001'', eu_phoneNumber = None, eu_createdAt = None\<rparr>,
      re_success = True\<rparr>"

definition sheet_user :: User where
  "sheet_user = \<lparr>u_id = ''1'', u_name = ''Lalit Nikumbh'', u_rfidCardId = ''RFID001'',
                  u_balance = 150, u_phoneNumber = None, u_createdAt = 500\<rparr>"

text \<open>
  The state after the confirmation of 40 rupees at time 1000, once the battery status
  reads \<open>p\<close> percent.
\<close>

definition kiosk_charging :: "real \<Rightarrow> Kiosk" where
  "kiosk_charging p =
     (handleConfirm 1000 mock_backend kiosk_at_35)
       \<lparr>batteryStatus := Some \<lparr>b_percentage = p, b_voltage = 50, b_current = 45, b_power = 2250\<rparr>\<rparr>"

text \<open>The user opens the cost selection, selects his whole balance of 100 and confirms.\<close>

definition kiosk_paid_in_full :: Kiosk where
  "kiosk_paid_in_full = run [OpenCostSelection, AmountSelect 100, Confirm 1000 mock_backend] kiosk_at_35"

text \<open>The event the backend sends when it has switched the relay on itself.\<close>

definition started_event :: RfidEvent where
  "started_event = \<lparr>re_type = charging_started, re_user = None, re_success = True\<rparr>"

text \<open>The state after the confirmation of 40 rupees at time 1000, with a backend that answers.\<close>

definition kiosk_started :: Kiosk where
  "kiosk_started = run [Confirm 1000 live_backend] kiosk_at_35"

section \<open>Properties of the database service\<close>


lemma map_fst_default_refs: "map fst (default_refs d) = DEFAULT_USERS d"
  by (simp add: default_refs_def)

lemma fst_fresh [simp]: "fst (fresh u) = u"
  by (simp add: fresh_def)

lemma snd_fresh [simp]: "snd (fresh u) = None"
  by (simp add: fresh_def)

lemma map_fst_fresh: "map fst (map fresh us) = us"
  by (induction us) simp_all

lemma map_fst_fresh': "map (fst \<circ> fresh) us = us"
  by (induction us) simp_all

lemma getUsers_DEFAULT_USERS: "DEFAULT_USERS (snd (getUsers d)) = DEFAULT_USERS d"
  by (simp add: getUsers_def saveUsers_def Let_def split: option.splits)

lemma getUsers_SESSIONS: "SESSIONS (snd (getUsers d)) = SESSIONS d"
  by (simp add: getUsers_def saveUsers_def Let_def split: option.splits)

lemma getUsers_TRANSACTIONS: "TRANSACTIONS (snd (getUsers d)) = TRANSACTIONS d"
  by (simp add: getUsers_def saveUsers_def Let_def split: option.splits)

lemma filter_length_eq: "length (filter P xs) = length xs \<Longrightarrow> filter P xs = xs"
  by (metis filter_True length_filter_less less_irrefl)

lemma getUsers_USERS: "USERS (snd (getUsers d)) = Some (users_of d)"
  by (auto simp add: users_of_def getUsers_def saveUsers_def Let_def map_fst_default_refs map_fst_fresh'
      filter_length_eq  split: option.splits)

lemma default_refs_sound:
  "(u, Some j) \<in> set (default_refs d) \<Longrightarrow> j < length (DEFAULT_USERS d) \<and> DEFAULT_USERS d ! j = u"
  unfolding default_refs_def by (auto simp: in_set_zip)

lemma getUsers_refs_sound:
  "(u, Some j) \<in> set (fst (getUsers d)) \<Longrightarrow> j < length (DEFAULT_USERS d) \<and> DEFAULT_USERS d ! j = u"
  by (auto simp add: getUsers_def Let_def fresh_def dest: default_refs_sound split: option.splits if_splits)

lemma map_fst_filter_refs:
  "map fst (filter (\<lambda>r. P (fst r)) (default_refs d)) = filter P (DEFAULT_USERS d)"
  using filter_map[of P fst "default_refs d"] by (simp add: map_fst_default_refs comp_def)

lemma users_of_eq:
  "users_of d =
     (case USERS d of
        None \<Rightarrow> DEFAULT_USERS d
      | Some users \<Rightarrow>
          let filteredUsers = filter not_JJ users;
              missingUsers = filter (\<lambda>u. u_name u \<notin> set (map u_name filteredUsers)) (DEFAULT_USERS d)
          in if missingUsers \<noteq> [] then filteredUsers @ missingUsers
             else if length filteredUsers \<noteq> length users then filteredUsers
             else if length filteredUsers < 3 then DEFAULT_USERS d
             else filteredUsers)"
proof (cases "USERS d")
  case None
  then show ?thesis by (simp add: users_of_def getUsers_def map_fst_default_refs)
next
  case (Some users)
  define fu where "fu = filter (\<lambda>user. u_name user \<noteq> ''John Doe'' \<and> u_name user \<noteq> ''Jane Smith'') users"
  define mr where "mr = filter (\<lambda>r. u_name (fst r) \<notin> set (map u_name fu)) (default_refs d)"
  have m: "map fst mr = filter (\<lambda>u. u_name u \<notin> set (map u_name fu)) (DEFAULT_USERS d)"
    unfolding mr_def by (rule map_fst_filter_refs)
  have e: "(mr = []) = (filter (\<lambda>u. u_name u \<notin> set (map u_name fu)) (DEFAULT_USERS d) = [])"
    using m by (metis map_is_Nil_conv)
  have f: "filter not_JJ users = fu" by (simp add: fu_def not_JJ_def[abs_def])
  have "users_of d = (if mr \<noteq> [] then fu @ map fst mr
             else if length fu \<noteq> length users then fu
             else if length fu < 3 then DEFAULT_USERS d
             else fu)"
    using Some
    by (simp add: users_of_def getUsers_def Let_def map_fst_default_refs map_fst_fresh'
          fu_def[symmetric] mr_def[symmetric] del: set_map)
  then show ?thesis using Some m e f by (simp add: Let_def del: set_map)
qed

lemma missing_cover:
  "set (map u_name ds) \<subseteq> S \<union> set (map u_name (filter (\<lambda>u. u_name u \<notin> S) ds))"
  by auto

lemma required_not_JJ: "n \<in> set requiredUserNames \<Longrightarrow> n \<noteq> ''John Doe'' \<and> n \<noteq> ''Jane Smith''"
  by (auto simp: requiredUserNames_def)

lemma defaults_not_JJ: "defaults_named d \<Longrightarrow> u \<in> set (DEFAULT_USERS d) \<Longrightarrow> not_JJ u"
proof -
  assume n: "defaults_named d" and u: "u \<in> set (DEFAULT_USERS d)"
  from u have "u_name u \<in> set (map u_name (DEFAULT_USERS d))" by simp
  with n have "u_name u \<in> set requiredUserNames" by (simp only: defaults_named_def)
  then show "not_JJ u" unfolding not_JJ_def by (rule required_not_JJ)
qed

lemma users_of_no_JJ:
  assumes "defaults_named d" and "u \<in> set (users_of d)"
  shows "not_JJ u"
  using assms(2) defaults_not_JJ[OF assms(1)]
  by (auto simp add: users_of_eq Let_def split: option.splits if_splits)

lemma users_of_required:
  assumes "defaults_named d"
  shows "set requiredUserNames \<subseteq> set (map u_name (users_of d))"
proof (cases "USERS d")
  case None
  then show ?thesis using assms by (simp add: users_of_eq defaults_named_def)
next
  case (Some users)
  define fu where "fu = filter not_JJ users"
  define mu where "mu = filter (\<lambda>u. u_name u \<notin> set (map u_name fu)) (DEFAULT_USERS d)"
  have cover: "set requiredUserNames \<subseteq> set (map u_name fu) \<union> set (map u_name mu)"
    using missing_cover[of "DEFAULT_USERS d" "set (map u_name fu)"] assms
    unfolding mu_def defaults_named_def by simp
  have u: "users_of d = (if mu \<noteq> [] then fu @ mu
             else if length fu \<noteq> length users then fu
             else if length fu < 3 then DEFAULT_USERS d
             else fu)"
    using Some by (simp add: users_of_eq Let_def fu_def[symmetric] mu_def[symmetric] del: set_map)
  show ?thesis
  proof (cases "mu = []")
    case True
    with cover have "set requiredUserNames \<subseteq> set (map u_name fu)" by simp
    then show ?thesis using u True assms by (auto simp: defaults_named_def simp del: set_map)
  next
    case False
    then show ?thesis using u cover by (simp del: set_map)
  qed
qed

lemma card_required: "card (set requiredUserNames) = 3"
  by (simp add: requiredUserNames_def)

lemma required_length: "set requiredUserNames \<subseteq> set ns \<Longrightarrow> 3 \<le> length ns"
proof -
  assume "set requiredUserNames \<subseteq> set ns"
  then have "card (set requiredUserNames) \<le> card (set ns)" by (simp add: card_mono)
  also have "\<dots> \<le> length ns" by (rule card_length)
  finally show ?thesis by (simp add: card_required)
qed

lemma users_of_normal: "defaults_named d \<Longrightarrow> normal_users (users_of d)"
  unfolding normal_users_def using users_of_no_JJ users_of_required by blast

lemma getUsers_normal:
  assumes n: "defaults_named d" and s: "USERS d = Some us" and nu: "normal_users us"
  shows "getUsers d = (map fresh us, d)"
proof -
  have f: "filter (\<lambda>user. u_name user \<noteq> ''John Doe'' \<and> u_name user \<noteq> ''Jane Smith'') us = us"
    using nu by (simp add: normal_users_def not_JJ_def)
  have "\<And>r. r \<in> set (default_refs d) \<Longrightarrow> u_name (fst r) \<in> set (map u_name us)"
  proof -
    fix r assume "r \<in> set (default_refs d)"
    then have "fst r \<in> set (map fst (default_refs d))" by simp
    then have "fst r \<in> set (DEFAULT_USERS d)" by (simp only: map_fst_default_refs)
    then have "u_name (fst r) \<in> set (map u_name (DEFAULT_USERS d))" by simp
    then have "u_name (fst r) \<in> set requiredUserNames" using n by (simp only: defaults_named_def)
    then show "u_name (fst r) \<in> set (map u_name us)" using nu unfolding normal_users_def by blast
  qed
  then have m: "filter (\<lambda>defaultUser. u_name (fst defaultUser) \<notin> set (map u_name us)) (default_refs d) = []"
    by (simp only: filter_empty_conv) blast
  have l: "\<not> length us < 3" using required_length[of "map u_name us"] nu
    by (simp add: normal_users_def)
  show ?thesis
    unfolding getUsers_def using s f m l by (simp add: Let_def del: set_map)
qed

lemma users_of_stored_normal:
  "defaults_named d \<Longrightarrow> USERS d = Some us \<Longrightarrow> normal_users us \<Longrightarrow> users_of d = us"
  by (simp add: users_of_def getUsers_normal map_fst_fresh')

lemma find_map_comp: "find P (map f xs) = map_option f (find (\<lambda>x. P (f x)) xs)"
  by (induction xs) simp_all

lemma map_upd_first:
  "(\<And>x. f (g x) = h (f x)) \<Longrightarrow> map f (upd_first (\<lambda>x. P (f x)) g xs) = upd_first P h (map f xs)"
  by (induction xs) simp_all

lemma upd_first_cong_found:
  "find P xs = Some x \<Longrightarrow> upd_first P (\<lambda>_. f x) xs = upd_first P f xs"
  by (induction xs) (auto split: if_splits)

lemma find_upd_first_same:
  "(\<And>x. P (f x) = P x) \<Longrightarrow> find P (upd_first P f xs) = map_option f (find P xs)"
  by (induction xs) simp_all

lemma find_SomeD: "find P xs = Some x \<Longrightarrow> P x \<and> x \<in> set xs"
  by (induction xs) (auto split: if_splits)

lemma find_upd_first_other:
  assumes "find P xs = Some u" and "find Q xs = Some u" and "\<And>x. Q (f x) = Q x"
  shows "find Q (upd_first P f xs) = Some (f u)"
  using assms(1,2)
proof (induction xs)
  case Nil
  then show ?case by simp
next
  case (Cons x xs)
  have Pu: "P u" using Cons.prems(1) find_SomeD by fastforce
  have Qu: "Q u" using Cons.prems(2) find_SomeD by fastforce
  show ?case
  proof (cases "P x")
    case True
    then have "x = u" using Cons.prems(1) by simp
    then show ?thesis using True Qu assms(3) by simp
  next
    case False
    then have "\<not> Q x" using Cons.prems(2) Pu by (auto split: if_splits)
    then show ?thesis using False Cons by simp
  qed
qed

lemma map_name_upd_first:
  "(\<And>x. g (f x) = g x) \<Longrightarrow> map g (upd_first P f xs) = map g xs"
  by (induction xs) simp_all

lemma set_upd_first: "set (upd_first P f xs) \<subseteq> set xs \<union> f ` set xs"
  by (induction xs) auto

lemma normal_upd_balance:
  "normal_users us \<Longrightarrow> normal_users (upd_first P (\<lambda>u. u\<lparr>u_balance := b\<rparr>) us)"
proof -
  assume n: "normal_users us"
  have "map u_name (upd_first P (\<lambda>u. u\<lparr>u_balance := b\<rparr>) us) = map u_name us"
    by (rule map_name_upd_first) simp
  moreover have "\<forall>u \<in> set (upd_first P (\<lambda>u. u\<lparr>u_balance := b\<rparr>) us). not_JJ u"
    using n set_upd_first[of P "\<lambda>u. u\<lparr>u_balance := b\<rparr>" us]
    by (auto simp: normal_users_def not_JJ_def)
  ultimately show ?thesis using n by (simp add: normal_users_def del: set_map)
qed

text \<open>What updateUserBalance leaves in the state.\<close>

lemma updateUserBalance_found:
  assumes f: "find (\<lambda>u. u_id u = userId) (users_of d) = Some user"
  shows "USERS (updateUserBalance userId newBalance d)
           = Some (upd_first (\<lambda>u. u_id u = userId) (\<lambda>u. u\<lparr>u_balance := newBalance\<rparr>) (users_of d))"
    and "map u_name (DEFAULT_USERS (updateUserBalance userId newBalance d)) = map u_name (DEFAULT_USERS d)"
    and "SESSIONS (updateUserBalance userId newBalance d) = SESSIONS d"
    and "TRANSACTIONS (updateUserBalance userId newBalance d) = TRANSACTIONS d"
proof -
  obtain users d1 where g: "getUsers d = (users, d1)" by (cases "getUsers d")
  have uo: "users_of d = map fst users" by (simp add: users_of_def g)
  have d1: "DEFAULT_USERS d1 = DEFAULT_USERS d" "SESSIONS d1 = SESSIONS d" "TRANSACTIONS d1 = TRANSACTIONS d"
    using getUsers_DEFAULT_USERS[of d] getUsers_SESSIONS[of d] getUsers_TRANSACTIONS[of d] g by simp_all
  from f obtain r where r: "find (\<lambda>r. u_id (fst r) = userId) users = Some r" "fst r = user"
    by (auto simp: uo find_map_comp)
  obtain shared where rs: "r = (user, shared)" using r(2) by (cases r) simp
  define user' where "user' = user\<lparr>u_balance := newBalance\<rparr>"
  have m: "map fst (upd_first (\<lambda>r. u_id (fst r) = userId) (\<lambda>r. (user', snd r)) users)
        = upd_first (\<lambda>u. u_id u = userId) (\<lambda>_. user') (map fst users)"
    by (rule map_upd_first) simp
  have c: "upd_first (\<lambda>u. u_id u = userId) (\<lambda>_. user') (map fst users)
        = upd_first (\<lambda>u. u_id u = userId) (\<lambda>u. u\<lparr>u_balance := newBalance\<rparr>) (users_of d)"
    unfolding user'_def uo using f[unfolded uo] by (rule upd_first_cong_found)
  have e: "updateUserBalance userId newBalance d =
        saveUsers (map fst (upd_first (\<lambda>r. u_id (fst r) = userId) (\<lambda>r. (user', snd r)) users))
          (case shared of None \<Rightarrow> d1 | Some j \<Rightarrow> d1\<lparr>DEFAULT_USERS := (DEFAULT_USERS d1)[j := user']\<rparr>)"
    by (simp add: updateUserBalance_def g r(1) rs Let_def user'_def split: option.splits)
  show "USERS (updateUserBalance userId newBalance d)
           = Some (upd_first (\<lambda>u. u_id u = userId) (\<lambda>u. u\<lparr>u_balance := newBalance\<rparr>) (users_of d))"
    by (simp add: e saveUsers_def m c)
  show "SESSIONS (updateUserBalance userId newBalance d) = SESSIONS d"
    by (simp add: e saveUsers_def d1 split: option.splits)
  show "TRANSACTIONS (updateUserBalance userId newBalance d) = TRANSACTIONS d"
    by (simp add: e saveUsers_def d1 split: option.splits)
  show "map u_name (DEFAULT_USERS (updateUserBalance userId newBalance d)) = map u_name (DEFAULT_USERS d)"
  proof (cases shared)
    case None
    then show ?thesis by (simp add: e saveUsers_def d1)
  next
    case (Some j)
    have "(user, Some j) \<in> set users" using r(1) rs Some find_SomeD by fastforce
    then have j: "j < length (DEFAULT_USERS d)" "DEFAULT_USERS d ! j = user"
      using getUsers_refs_sound[of user j d] g by simp_all
    have "map u_name ((DEFAULT_USERS d)[j := user']) = (map u_name (DEFAULT_USERS d))[j := u_name user]"
      by (simp add: map_update user'_def)
    also have "\<dots> = map u_name (DEFAULT_USERS d)" using j by (metis list_update_id nth_map)
    finally show ?thesis by (simp add: e saveUsers_def d1 Some)
  qed
qed

lemma updateUserBalance_users_of:
  assumes n: "defaults_named d" and f: "find (\<lambda>u. u_id u = userId) (users_of d) = Some user"
  shows "users_of (updateUserBalance userId newBalance d)
           = upd_first (\<lambda>u. u_id u = userId) (\<lambda>u. u\<lparr>u_balance := newBalance\<rparr>) (users_of d)"
proof -
  have a: "defaults_named (updateUserBalance userId newBalance d)"
    using n updateUserBalance_found(2)[OF f] by (simp add: defaults_named_def)
  have b: "normal_users (upd_first (\<lambda>u. u_id u = userId) (\<lambda>u. u\<lparr>u_balance := newBalance\<rparr>) (users_of d))"
    using users_of_normal[OF n] by (rule normal_upd_balance)
  show ?thesis by (rule users_of_stored_normal[OF a updateUserBalance_found(1)[OF f] b])
qed

lemma defaults_named_init: "DEFAULT_USERS d = DEFAULT_USERS_init loaded \<Longrightarrow> defaults_named d"
  by (simp add: defaults_named_def DEFAULT_USERS_init_def requiredUserNames_def)

lemma users_of_fresh_install: "users_of (fresh_install loaded) = DEFAULT_USERS_init loaded"
  by (simp add: users_of_eq fresh_install_def)

text \<open>
  The array \<open>getUsers\<close> returns on a storage without items is \<open>DEFAULT_USERS\<close>
  itself, so that the assignment in \<open>updateUserBalance\<close> changes the module-level
  array as well as the storage.
\<close>

lemma updateUserBalance_writes_default:
  "map u_balance (DEFAULT_USERS (updateUserBalance ''1'' 60 (fresh_install loaded))) = [60, 150, 90]"
  by (simp add: updateUserBalance_def getUsers_def fresh_install_def default_refs_def saveUsers_def
      DEFAULT_USERS_init_def upt_rec Let_def)

lemma getUsers_fresh_install: "snd (getUsers (fresh_install loaded)) = stored_install loaded"
  by (simp add: getUsers_def fresh_install_def stored_install_def saveUsers_def)

lemma stored_install_named: "defaults_named (stored_install loaded)"
  by (rule defaults_named_init[of _ loaded]) (simp add: stored_install_def)

lemma fresh_install_named: "defaults_named (fresh_install loaded)"
  by (rule defaults_named_init[of _ loaded]) (simp add: fresh_install_def)

lemma users_of_stored_install: "users_of (stored_install loaded) = DEFAULT_USERS_init loaded"
proof -
  have "normal_users (DEFAULT_USERS_init loaded)"
    using users_of_normal[OF fresh_install_named, of loaded] by (simp add: users_of_fresh_install)
  then show ?thesis
    by (intro users_of_stored_normal[OF stored_install_named]) (simp_all add: stored_install_def)
qed

section \<open>Properties of the hardware service\<close>

lemma simulateCharging_idle: "\<not> h_chargingActive h \<Longrightarrow> simulateCharging now bk h = h"
  by (simp add: simulateCharging_def)

lemma simulateCharging_battery:
  assumes "h_chargingActive h"
  shows "h_currentBattery (simulateCharging now bk h)
           = min (h_currentBattery h + (energy_at now (h_startTime h) / 5000) * 100 * 0.5) (h_targetBattery h)"
  using assms by (simp add: simulateCharging_def stopCharging_def energy_at_def Let_def field_simps)

lemma simulateCharging_active:
  assumes "h_chargingActive h"
  shows "h_energyDelivered (simulateCharging now bk h) = energy_at now (h_startTime h)"
    and "h_startTime (simulateCharging now bk h) = h_startTime h"
    and "h_targetBattery (simulateCharging now bk h) = h_targetBattery h"
  using assms by (simp_all add: simulateCharging_def stopCharging_def energy_at_def Let_def)

lemma simulateCharging_stays_idle:
  "\<not> h_chargingActive h \<Longrightarrow> \<not> h_chargingActive (simulateCharging now bk h)"
  by (simp add: simulateCharging_def)

lemma energy_at_mono: "now1 \<le> now2 \<Longrightarrow> energy_at now1 start \<le> energy_at now2 start"
  by (simp add: energy_at_def)

lemma energy_at_nonneg: "start \<le> now \<Longrightarrow> 0 \<le> energy_at now start"
  by (simp add: energy_at_def)

lemma simulateCharging_twice_monotone:
  assumes "h_startTime h \<le> now1" and "now1 \<le> now2"
  shows "h_energyDelivered (simulateCharging now1 bk1 h)
           \<le> h_energyDelivered (simulateCharging now2 bk2 (simulateCharging now1 bk1 h))
       \<and> h_currentBattery (simulateCharging now1 bk1 h)
           \<le> h_currentBattery (simulateCharging now2 bk2 (simulateCharging now1 bk1 h))
       \<and> getEnergyDelivered (simulateCharging now1 bk1 h)
           \<le> getEnergyDelivered (simulateCharging now2 bk2 (simulateCharging now1 bk1 h))"
proof -
  define h1 where "h1 = simulateCharging now1 bk1 h"
  show ?thesis
  proof (cases "h_chargingActive h1")
    case False
    then have "simulateCharging now2 bk2 h1 = h1" by (rule simulateCharging_idle)
    then show ?thesis by (simp add: h1_def[symmetric])
  next
    case True
    then have act: "h_chargingActive h"
      using simulateCharging_stays_idle[of h now1 bk1] by (auto simp: h1_def)
    note a1 = simulateCharging_active[OF act, of now1 bk1, folded h1_def]
    note a2 = simulateCharging_active[OF True, of now2 bk2]
    have b1: "h_currentBattery h1 \<le> h_targetBattery h"
      by (simp add: h1_def simulateCharging_battery[OF act])
    have nn: "0 \<le> energy_at now2 (h_startTime h)" using assms by (simp add: energy_at_nonneg)
    have "h_energyDelivered h1 \<le> h_energyDelivered (simulateCharging now2 bk2 h1)"
      using energy_at_mono[OF assms(2)] by (simp add: a1(1,2) a2(1))
    moreover have "h_currentBattery h1 \<le> h_currentBattery (simulateCharging now2 bk2 h1)"
      using b1 nn by (simp add: simulateCharging_battery[OF True] a1(2,3))
    ultimately show ?thesis by (simp add: h1_def[symmetric] getEnergyDelivered_def)
  qed
qed

section \<open>Properties of the handlers\<close>

lemma startCharging_target: "h_targetBattery (snd (startCharging now bk t h)) = t"
  by (simp add: startCharging_def getChargingStatus_def Let_def
      split: option.splits fetched.splits prod.splits if_splits)

lemma handleConfirm_currentSession:
  assumes "selectedAmount k = Some amount" and "amount \<noteq> 0" and "currentUser k = Some user"
  shows "currentSession (handleConfirm now bk k) = Some (new_session now user amount k)"
  using assms by (simp add: handleConfirm_def Let_def split: prod.splits)

lemma handleConfirm_hardware:
  assumes "selectedAmount k = Some amount" and "amount \<noteq> 0" and "currentUser k = Some user"
  shows "hardware (handleConfirm now bk k)
           = snd (startCharging now bk (s_targetBattery (new_session now user amount k)) (hardware k))"
  using assms by (simp add: handleConfirm_def Let_def split: prod.splits)

lemma updateUserBalance_SESSIONS: "SESSIONS (updateUserBalance userId newBalance d) = SESSIONS d"
proof -
  obtain users d1 where g: "getUsers d = (users, d1)" by (cases "getUsers d")
  have "SESSIONS d1 = SESSIONS d" using getUsers_SESSIONS[of d] g by simp
  then show ?thesis
    by (simp add: updateUserBalance_def g saveUsers_def Let_def split: option.splits prod.splits)
qed

lemma updateUserBalance_names:
  "map u_name (DEFAULT_USERS (updateUserBalance userId newBalance d)) = map u_name (DEFAULT_USERS d)"
proof (cases "find (\<lambda>u. u_id u = userId) (users_of d)")
  case None
  obtain users d1 where g: "getUsers d = (users, d1)" by (cases "getUsers d")
  have "find (\<lambda>r. u_id (fst r) = userId) users = None"
    using None by (simp add: users_of_def g find_map_comp)
  moreover have "DEFAULT_USERS d1 = DEFAULT_USERS d" using getUsers_DEFAULT_USERS[of d] g by simp
  ultimately show ?thesis by (simp add: updateUserBalance_def g)
next
  case (Some user)
  then show ?thesis by (rule updateUserBalance_found(2))
qed

lemma updateUserBalance_defaults_named:
  "defaults_named d \<Longrightarrow> defaults_named (updateUserBalance userId newBalance d)"
  by (simp add: defaults_named_def updateUserBalance_names)

lemma getUsers_defaults_named: "defaults_named d \<Longrightarrow> defaults_named (snd (getUsers d))"
  by (simp add: defaults_named_def getUsers_DEFAULT_USERS)

lemma users_of_after_getUsers:
  "defaults_named d \<Longrightarrow> users_of (snd (getUsers d)) = users_of d"
  by (rule users_of_stored_normal[OF getUsers_defaults_named getUsers_USERS users_of_normal])

lemma handleConfirm_db:
  assumes "selectedAmount k = Some amount" and "amount \<noteq> 0" and "currentUser k = Some user"
  shows "db (handleConfirm now bk k)
           = addTransaction
               \<lparr>t_id = now, t_userId = u_id user, t_userName = u_name user,
                t_type = charge, t_amount = - amount, t_timestamp = now,
                t_description = Charging_session_started (s_targetBattery (new_session now user amount k)),
                t_sessionId = Some (s_id (new_session now user amount k))\<rparr>
               (createSession (new_session now user amount k)
                  (updateUserBalance (u_id user) (u_balance user - amount) (db k)))"
  using assms by (simp add: handleConfirm_def Let_def split: prod.splits)

lemma handleConfirm_guard_fails:
  "selectedAmount k = None \<or> selectedAmount k = Some 0 \<or> currentUser k = None
     \<Longrightarrow> handleConfirm now bk k = k"
  by (auto simp add: handleConfirm_def split: option.splits)

lemma handleConfirm_SESSIONS:
  assumes "selectedAmount k = Some amount" and "amount \<noteq> 0" and "currentUser k = Some user"
  shows "SESSIONS (db (handleConfirm now bk k)) = SESSIONS (db k) @ [new_session now user amount k]"
  by (simp add: handleConfirm_db[OF assms] addTransaction_def createSession_def saveSessions_def
      getSessions_def updateUserBalance_SESSIONS)

lemma handleConfirm_currentUser:
  assumes "selectedAmount k = Some amount" and "amount \<noteq> 0" and "currentUser k = Some user"
  shows "currentUser (handleConfirm now bk k) = Some (user\<lparr>u_balance := u_balance user - amount\<rparr>)"
  using assms by (simp add: handleConfirm_def Let_def split: prod.splits)

lemma users_of_addTransaction [simp]: "users_of (addTransaction t d) = users_of d"
  by (simp add: users_of_def getUsers_def addTransaction_def saveUsers_def default_refs_def Let_def
      split: option.splits)

lemma users_of_createSession [simp]: "users_of (createSession s d) = users_of d"
  by (simp add: users_of_def getUsers_def createSession_def saveSessions_def saveUsers_def
      default_refs_def Let_def split: option.splits)

lemma defaults_named_addTransaction [simp]: "defaults_named (addTransaction t d) = defaults_named d"
  by (simp add: defaults_named_def addTransaction_def)

lemma defaults_named_createSession [simp]: "defaults_named (createSession s d) = defaults_named d"
  by (simp add: defaults_named_def createSession_def saveSessions_def)

lemma handleConfirm_defaults_named:
  "defaults_named (db k) \<Longrightarrow> defaults_named (db (handleConfirm now bk k))"
proof (cases "selectedAmount k = None \<or> selectedAmount k = Some 0 \<or> currentUser k = None")
  case True
  then show "defaults_named (db k) \<Longrightarrow> ?thesis" by (simp add: handleConfirm_guard_fails)
next
  case False
  then obtain amount user where "selectedAmount k = Some amount" "amount \<noteq> 0" "currentUser k = Some user"
    by auto
  then show "defaults_named (db k) \<Longrightarrow> ?thesis"
    by (simp add: handleConfirm_db updateUserBalance_defaults_named)
qed

lemma getUserByRfid_snd: "snd (getUserByRfid c d) = snd (getUsers d)"
  by (cases "getUsers d") (simp add: getUserByRfid_def)

lemma getUserByRfid_fst: "fst (getUserByRfid c d) = find (\<lambda>u. u_rfidCardId u = c) (users_of d)"
  by (cases "getUsers d") (simp add: getUserByRfid_def users_of_def)

lemma scanRfid_db:
  "db (scanRfid now bk k) = db k \<or> db (scanRfid now bk k) = snd (getUsers (db k))"
proof (cases "hardware_scanRfid now bk (hardware k)")
  case (Pair card h1)
  show ?thesis
  proof (cases card)
    case None
    then show ?thesis using Pair by (simp add: scanRfid_def)
  next
    case (Some c)
    obtain user d1 where g: "getUserByRfid c (db k) = (user, d1)" by (cases "getUserByRfid c (db k)")
    then have "d1 = snd (getUsers (db k))" using getUserByRfid_snd[of c "db k"] by simp
    then show ?thesis using Pair Some g by (simp add: scanRfid_def split: option.splits)
  qed
qed

lemma scanRfid_users_of:
  assumes "defaults_named (db k)"
  shows "users_of (db (scanRfid now bk k)) = users_of (db k)"
  using scanRfid_db[of now bk k] users_of_after_getUsers[OF assms] by auto

lemma count_upd_first:
  assumes "\<And>s. s_status (f s) = in_progress \<Longrightarrow> s_status s = in_progress"
  shows "length (filter (\<lambda>s. s_status s = in_progress) (upd_first P f xs))
           \<le> length (filter (\<lambda>s. s_status s = in_progress) xs)"
  using assms by (induction xs) auto

lemma updateSession_count:
  assumes "\<And>s. s_status (f s) = in_progress \<Longrightarrow> s_status s = in_progress"
  shows "in_progress_count (updateSession sessionId f d) \<le> in_progress_count d"
  using count_upd_first[of f "\<lambda>s. s_id s = sessionId" "SESSIONS d", OF assms]
  by (simp add: in_progress_count_def updateSession_def getSessions_def saveSessions_def
      split: option.splits)

lemma in_progress_count_addTransaction [simp]:
  "in_progress_count (addTransaction t d) = in_progress_count d"
  by (simp add: in_progress_count_def addTransaction_def getSessions_def)

lemma in_progress_count_getUsers [simp]:
  "in_progress_count (snd (getUsers d)) = in_progress_count d"
  by (simp add: in_progress_count_def getSessions_def getUsers_SESSIONS)

lemma context_stopCharging_count:
  "status \<noteq> in_progress \<Longrightarrow>
     in_progress_count (db (context_stopCharging status now bk k)) \<le> in_progress_count (db k)"
proof (cases "currentSession k")
  case None
  then show "status \<noteq> in_progress \<Longrightarrow> ?thesis" by (simp add: context_stopCharging_def)
next
  case (Some session)
  assume n: "status \<noteq> in_progress"
  have "in_progress_count (updateSession (s_id session)
           (\<lambda>_. session\<lparr>s_status := status, s_endTime := Some now,
                       s_endBattery := percentage_or_null (batteryStatus k),
                       s_energyDelivered := getEnergyDelivered (hardware k)\<rparr>) (db k))
          \<le> in_progress_count (db k)"
    by (rule updateSession_count) (simp add: n)
  then show ?thesis using Some by (simp add: context_stopCharging_def Let_def)
qed

lemma metering_tick_count:
  "in_progress_count (db (metering_tick now bk bk' k)) \<le> in_progress_count (db k)"
proof (cases "currentSession k")
  case None
  then show ?thesis by (simp add: metering_tick_def)
next
  case (Some session)
  define f :: "ChargingSession \<Rightarrow> ChargingSession"
    where "f = (\<lambda>s. s\<lparr>s_energyDelivered := getEnergyDelivered (simulateCharging now bk (hardware k)),
                                 s_current := or_zero b_current (batteryStatus k),
                                 s_voltage := or_zero b_voltage (batteryStatus k),
                                 s_power := or_zero b_power (batteryStatus k)\<rparr>)"
  define k1 where "k1 = k\<lparr>db := updateSession (s_id session) f (db k),
                          hardware := simulateCharging now bk (hardware k)\<rparr>"
  have "in_progress_count (updateSession (s_id session) f (db k)) \<le> in_progress_count (db k)"
    by (rule updateSession_count) (simp add: f_def)
  then have a: "in_progress_count (db k1) \<le> in_progress_count (db k)"
    by (simp add: k1_def)
  have b: "in_progress_count (db (context_stopCharging completed now bk' k1)) \<le> in_progress_count (db k1)"
    by (rule context_stopCharging_count) simp
  have "metering_tick now bk bk' k = k \<or> metering_tick now bk bk' k = k1
        \<or> metering_tick now bk bk' k = context_stopCharging completed now bk' k1"
    using Some by (simp add: metering_tick_def Let_def k1_def f_def)
  then show ?thesis using a b by auto
qed

lemma handleStop_count:
  "in_progress_count (db (handleStop now bk k)) \<le> in_progress_count (db k)"
proof (cases "currentSession k")
  case None
  then show ?thesis by (simp add: handleStop_def)
next
  case (Some session)
  have "in_progress_count (updateSession (s_id session)
           (\<lambda>s. s\<lparr>s_status := stopped, s_endTime := Some now,
                   s_endBattery := percentage_or_null (batteryStatus k),
                   s_energyDelivered := getEnergyDelivered (hardware k)\<rparr>) (db k))
          \<le> in_progress_count (db k)"
    by (rule updateSession_count) simp
  then show ?thesis using Some by (simp add: handleStop_def Let_def)
qed

lemma scanRfid_count: "in_progress_count (db (scanRfid now bk k)) = in_progress_count (db k)"
  using scanRfid_db[of now bk k] by auto

lemma rfid_message_db: "db (rfid_message now ev k) = db k"
  by (simp add: rfid_message_def handleRfidEvent_def
      split: option.splits rfid_event_type.splits)

lemma handleAmountSelect_db: "db (handleAmountSelect amount k) = db k"
  by (simp add: handleAmountSelect_def)

lemma handleCustomAmount_db: "db (handleCustomAmount parsed k) = db k"
  by (simp add: handleCustomAmount_def split: option.splits)

lemma handleConfirm_count:
  assumes "selectedAmount k = Some amount" and "amount \<noteq> 0" and "currentUser k = Some user"
  shows "in_progress_count (db (handleConfirm now bk k)) = Suc (in_progress_count (db k))"
  by (simp add: in_progress_count_def getSessions_def handleConfirm_SESSIONS[OF assms] new_session_def)

lemma handleConfirm_count_le:
  "in_progress_count (db (handleConfirm now bk k)) \<le> Suc (in_progress_count (db k))"
proof (cases "selectedAmount k = None \<or> selectedAmount k = Some 0 \<or> currentUser k = None")
  case True
  then show ?thesis by (simp add: handleConfirm_guard_fails)
next
  case False
  then obtain amount user where "selectedAmount k = Some amount" "amount \<noteq> 0" "currentUser k = Some user"
    by auto
  then show ?thesis by (simp add: handleConfirm_count)
qed

lemma getActiveSession_None: "(getActiveSession d = None) = (in_progress_count d = 0)"
  by (auto simp add: getActiveSession_def in_progress_count_def find_None_iff filter_empty_conv)

lemma step_count:
  assumes "case e of Confirm now bk \<Rightarrow> getActiveSession (db k) = None | _ \<Rightarrow> True"
    and "in_progress_count (db k) \<le> 1"
  shows "in_progress_count (db (step e k)) \<le> 1"
proof (cases e)
  case (Confirm now bk)
  then have "in_progress_count (db k) = 0" using assms(1) by (simp add: getActiveSession_None)
  then show ?thesis using handleConfirm_count_le[of now bk k] Confirm by simp
next
  case (Tick now bk bk')
  then show ?thesis using metering_tick_count[of now bk bk' k] assms(2) by simp
next
  case (Stop now bk)
  then show ?thesis using handleStop_count[of now bk k] assms(2) by simp
qed (use assms(2) in \<open>simp_all add: scanRfid_count rfid_message_db handleAmountSelect_db
      handleCustomAmount_db openCostSelection_def refreshBatteryStatus_def authScreen_mount_def\<close>)

lemma run_count:
  "in_progress_count (db k) \<le> 1 \<Longrightarrow> confirms_when_idle evs k
     \<Longrightarrow> in_progress_count (db (run (take n evs) k)) \<le> 1"
proof (induction evs arbitrary: k n)
  case Nil
  then show ?case by simp
next
  case (Cons e es)
  show ?case
  proof (cases n)
    case 0
    then show ?thesis using Cons.prems(1) by simp
  next
    case (Suc m)
    have "in_progress_count (db (step e k)) \<le> 1"
      using Cons.prems by (intro step_count) simp_all
    then show ?thesis using Cons.IH[of "step e k" m] Cons.prems(2) Suc by simp
  qed
qed

lemma kiosk_at_35_fields:
  "selectedAmount kiosk_at_35 = Some 40"
  "currentUser kiosk_at_35 = Some (DEFAULT_USERS_init 0 ! 0)"
  "SESSIONS (db kiosk_at_35) = []"
  "currentSession kiosk_at_35 = None"
  "settings kiosk_at_35 = DEFAULT_SETTINGS"
  "hardware kiosk_at_35 = hardware_init"
  "batteryStatus kiosk_at_35 = Some \<lparr>b_percentage = 35, b_voltage = 50, b_current = 0, b_power = 0\<rparr>"
  by (simp_all add: kiosk_at_35_def kiosk_init_def stored_install_def)

lemma kiosk_at_35_db: "db kiosk_at_35 = stored_install 0"
  by (simp add: kiosk_at_35_def kiosk_init_def)

lemma kiosk_at_35_reached:
  "run [OpenAuthScreen, RefreshBattery (1 / 2) 0, ScanRfid 0 mock_backend, OpenCostSelection,
        AmountSelect 40] (kiosk_init 0) = kiosk_at_35"
proof -
  define k1 where "k1 = refreshBatteryStatus (1 / 2) 0 (authScreen_mount (kiosk_init 0))"
  have k1: "k1 = (kiosk_init 0)\<lparr>db := stored_install 0,
                    batteryStatus := Some \<lparr>b_percentage = 35, b_voltage = 50, b_current = 0, b_power = 0\<rparr>\<rparr>"
    by (simp add: k1_def refreshBatteryStatus_def authScreen_mount_def kiosk_init_def
        getUsers_fresh_install getBatteryStatus_def hardware_init_def Math_round_def)
  have g: "getUserByRfid ''RFID001'' (stored_install 0) = (Some (DEFAULT_USERS_init 0 ! 0), stored_install 0)"
  proof -
    have "getUsers (stored_install 0) = (map fresh (DEFAULT_USERS_init 0), stored_install 0)"
      using users_of_normal[OF stored_install_named, of 0]
      by (intro getUsers_normal[OF stored_install_named])
        (simp_all add: users_of_stored_install, simp add: stored_install_def)
    then show ?thesis
      by (simp add: getUserByRfid_def map_fst_fresh' DEFAULT_USERS_init_def)
  qed
  have "scanRfid 0 mock_backend k1 = k1\<lparr>currentUser := Some (DEFAULT_USERS_init 0 ! 0)\<rparr>"
    by (simp add: scanRfid_def hardware_scanRfid_def mock_backend_def checkBackendAvailable_def
        k1 g kiosk_init_def)
  then have "handleAmountSelect 40 (openCostSelection (scanRfid 0 mock_backend k1)) = kiosk_at_35"
    by (simp add: k1 handleAmountSelect_def openCostSelection_def balance_or_zero_def
        kiosk_at_35_def kiosk_init_def DEFAULT_USERS_init_def)
  then show ?thesis by (simp add: k1_def)
qed

lemma handleStop_SESSIONS:
  "currentSession k = Some session \<Longrightarrow>
   SESSIONS (db (handleStop now bk k))
     = (case find (\<lambda>s. s_id s = s_id session) (SESSIONS (db k)) of
          None \<Rightarrow> SESSIONS (db k)
        | Some _ \<Rightarrow> upd_first (\<lambda>s. s_id s = s_id session)
             (\<lambda>s. s\<lparr>s_status := stopped, s_endTime := Some now,
                     s_endBattery := percentage_or_null (batteryStatus k),
                     s_energyDelivered := getEnergyDelivered (hardware k)\<rparr>) (SESSIONS (db k)))"
  by (simp add: handleStop_def Let_def addTransaction_def updateSession_def getSessions_def
      saveSessions_def split: option.splits)

lemma stopCharging_calls:
  "h_startCharging_calls (snd (stopCharging bk h)) = h_startCharging_calls h"
  by (simp add: stopCharging_def)

lemma simulateCharging_calls:
  "h_startCharging_calls (simulateCharging now bk h) = h_startCharging_calls h"
  by (simp add: simulateCharging_def Let_def stopCharging_calls)

lemma hardware_scanRfid_calls:
  "h_startCharging_calls (snd (hardware_scanRfid now bk h)) = h_startCharging_calls h"
  by (simp add: hardware_scanRfid_def Let_def split: fetched.splits scan_action.splits option.splits)

lemma scanRfid_hardware: "hardware (scanRfid now bk k) = snd (hardware_scanRfid now bk (hardware k))"
  by (simp add: scanRfid_def Let_def split: prod.splits option.splits)

lemma scanRfid_other:
  "selectedAmount (scanRfid now bk k) = selectedAmount k"
  "currentSession (scanRfid now bk k) = currentSession k"
  by (simp_all add: scanRfid_def Let_def split: prod.splits option.splits)

lemma scanRfid_rejected:
  assumes "case fst (hardware_scanRfid now bk (hardware k)) of
             None \<Rightarrow> True | Some c \<Rightarrow> fst (getUserByRfid c (db k)) = None"
  shows "currentUser (scanRfid now bk k) = currentUser k"
proof (cases "hardware_scanRfid now bk (hardware k)")
  case (Pair card h1)
  show ?thesis
  proof (cases card)
    case None
    then show ?thesis using Pair by (simp add: scanRfid_def)
  next
    case (Some c)
    then have "fst (getUserByRfid c (db k)) = None" using assms Pair by simp
    then show ?thesis using Pair Some
      by (cases "getUserByRfid c (db k)") (simp add: scanRfid_def)
  qed
qed

lemma rfid_message_calls:
  "h_startCharging_calls (hardware (rfid_message now ev k)) = h_startCharging_calls (hardware k)"
  by (simp add: rfid_message_def handleRfidEvent_def hardware_onmessage_def
      split: option.splits rfid_event_type.splits)

lemma rfid_message_rejected:
  assumes "re_type ev = insufficient_balance
           \<or> (re_type ev = rfid_detected \<and> (\<not> re_success ev \<or> re_user ev = None))"
  shows "currentUser (rfid_message now ev k) = currentUser k"
    and "selectedAmount (rfid_message now ev k) = selectedAmount k"
  using assms
  by (auto simp add: rfid_message_def handleRfidEvent_def hardware_onmessage_def
      split: option.splits rfid_event_type.splits)

lemma context_stopCharging_calls:
  "h_startCharging_calls (hardware (context_stopCharging status now bk k)) = h_startCharging_calls (hardware k)"
  by (simp add: context_stopCharging_def Let_def stopCharging_calls split: option.splits)

lemma metering_tick_calls:
  "h_startCharging_calls (hardware (metering_tick now bk bk' k)) = h_startCharging_calls (hardware k)"
  by (simp add: metering_tick_def Let_def context_stopCharging_calls simulateCharging_calls
      split: option.splits)

lemma handleStop_calls:
  "h_startCharging_calls (hardware (handleStop now bk k)) = h_startCharging_calls (hardware k)"
  by (simp add: handleStop_def Let_def stopCharging_calls split: option.splits)

lemma step_calls:
  "(case e of Confirm now bk \<Rightarrow> True
    | _ \<Rightarrow> h_startCharging_calls (hardware (step e k)) = h_startCharging_calls (hardware k))"
  by (cases e)
    (simp_all add: scanRfid_hardware hardware_scanRfid_calls rfid_message_calls metering_tick_calls
      handleStop_calls openCostSelection_def handleAmountSelect_def handleCustomAmount_def
      refreshBatteryStatus_def authScreen_mount_def split: option.splits)




lemma handleConfirm_stored_balance:
  assumes "selectedAmount k = Some amount" and "amount \<noteq> 0" and "currentUser k = Some user"
    and "defaults_named (db k)"
    and "find (\<lambda>u. u_id u = u_id user) (users_of (db k)) = Some stored"
  shows "find (\<lambda>u. u_id u = u_id user) (users_of (db (handleConfirm now bk k)))
           = Some (stored\<lparr>u_balance := u_balance user - amount\<rparr>)"
  using assms(5)
  by (simp add: handleConfirm_db[OF assms(1-3)] updateUserBalance_users_of[OF assms(4,5)]
      find_upd_first_same)

lemma handleConfirm_db_backend:
  "db (handleConfirm now bk k) = db (handleConfirm now bk' k)"
  by (simp add: handleConfirm_def Let_def split: option.splits prod.splits)

lemma new_session_kiosk_at_35:
  "s_targetBattery (new_session now user 40 kiosk_at_35) = 75"
  "s_status (new_session now user amount k) = in_progress"
  "s_paidAmount (new_session now user amount k) = amount"
  "s_remainingBalance (new_session now user amount k) = u_balance user - amount"
  "s_id (new_session now user amount k) = now"
  by (simp_all add: new_session_def kiosk_at_35_fields calculateTargetBattery_def or_zero_def
      DEFAULT_SETTINGS_def)


lemma find_lalit:
  "find (\<lambda>u. u_id u = u_id (DEFAULT_USERS_init 0 ! 0)) (users_of (stored_install 0))
     = Some (DEFAULT_USERS_init 0 ! 0)"
  by (simp add: users_of_stored_install DEFAULT_USERS_init_def)

lemma stored_balance_found:
  "find (\<lambda>u. u_id u = userId) (users_of d) = Some stored \<Longrightarrow> stored_balance userId d = Some (u_balance stored)"
  by (simp add: stored_balance_def)

lemma after_sheet_event:
  "currentUser (run [OpenAuthScreen, Message 500 sheet_event, OpenCostSelection, AmountSelect 40]
     (kiosk_init 0)) = Some sheet_user"
  "selectedAmount (run [OpenAuthScreen, Message 500 sheet_event, OpenCostSelection, AmountSelect 40]
     (kiosk_init 0)) = Some 40"
  "db (run [OpenAuthScreen, Message 500 sheet_event, OpenCostSelection, AmountSelect 40]
     (kiosk_init 0)) = stored_install 0"
  by (simp_all add: authScreen_mount_def getUsers_fresh_install rfid_message_def handleRfidEvent_def hardware_onmessage_def sheet_event_def
      sheet_user_def kiosk_init_def openCostSelection_def handleAmountSelect_def balance_or_zero_def)

lemma run_snoc: "run (es @ [e]) k = step e (run es k)"
  by (induction es arbitrary: k) simp_all

lemma find_upd_first_const:
  "find P xs \<noteq> None \<Longrightarrow> P y \<Longrightarrow> find P (upd_first P (\<lambda>_. y) xs) = Some y"
  by (induction xs) auto

lemma find_upd_first_keeps:
  "(\<And>x. P (f x) = P x) \<Longrightarrow> find P xs \<noteq> None \<Longrightarrow> find P (upd_first P f xs) \<noteq> None"
  by (induction xs) auto

lemma upd_first_none: "\<forall>x \<in> set xs. \<not> P x \<Longrightarrow> upd_first P f xs = xs"
  by (induction xs) simp_all

lemma updateSession_SESSIONS:
  "SESSIONS (updateSession sessionId f d) = upd_first (\<lambda>s. s_id s = sessionId) f (SESSIONS d)"
proof (cases "find (\<lambda>s. s_id s = sessionId) (SESSIONS d)")
  case None
  then have "\<forall>s \<in> set (SESSIONS d). s_id s \<noteq> sessionId" by (auto simp: find_None_iff)
  then have "upd_first (\<lambda>s. s_id s = sessionId) f (SESSIONS d) = SESSIONS d"
    by (rule upd_first_none)
  then show ?thesis using None by (simp add: updateSession_def getSessions_def)
next
  case (Some a)
  then show ?thesis by (simp add: updateSession_def getSessions_def saveSessions_def)
qed

lemma metering_tick_below:
  assumes "currentSession k = Some session" and "s_status session = in_progress"
    and "or_zero b_percentage (batteryStatus k) < s_targetBattery session"
  shows "currentSession (metering_tick now bk bk' k) = Some session"
    and "map s_status (SESSIONS (db (metering_tick now bk bk' k))) = map s_status (SESSIONS (db k))"
  using assms
  by (simp_all add: metering_tick_def Let_def updateSession_SESSIONS map_name_upd_first)

lemma metering_tick_reached:
  fixes now :: int and bk :: Backend
  assumes "currentSession k = Some session" and "s_status session = in_progress"
    and "s_targetBattery session \<le> or_zero b_percentage (batteryStatus k)"
  defines "final \<equiv> session\<lparr>s_status := completed, s_endTime := Some now,
                          s_endBattery := percentage_or_null (batteryStatus k),
                          s_energyDelivered := getEnergyDelivered (simulateCharging now bk (hardware k))\<rparr>"
  shows "currentSession (metering_tick now bk bk' k) = Some final"
    and "find (\<lambda>s. s_id s = s_id session) (SESSIONS (db k)) \<noteq> None \<Longrightarrow>
         find (\<lambda>s. s_id s = s_id session) (SESSIONS (db (metering_tick now bk bk' k))) = Some final"
proof -
  define f :: "ChargingSession \<Rightarrow> ChargingSession"
    where "f = (\<lambda>s. s\<lparr>s_energyDelivered := getEnergyDelivered (simulateCharging now bk (hardware k)),
                      s_current := or_zero b_current (batteryStatus k),
                      s_voltage := or_zero b_voltage (batteryStatus k),
                      s_power := or_zero b_power (batteryStatus k)\<rparr>)"
  define k1 where "k1 = k\<lparr>db := updateSession (s_id session) f (db k),
                          hardware := simulateCharging now bk (hardware k)\<rparr>"
  have e: "metering_tick now bk bk' k = context_stopCharging completed now bk' k1"
    using assms(1-3) by (simp add: metering_tick_def Let_def k1_def f_def)
  have c: "currentSession k1 = Some session" "batteryStatus k1 = batteryStatus k"
    "hardware k1 = simulateCharging now bk (hardware k)"
    "SESSIONS (db k1) = upd_first (\<lambda>s. s_id s = s_id session) f (SESSIONS (db k))"
    by (simp_all add: k1_def assms(1) updateSession_SESSIONS)
  show "currentSession (metering_tick now bk bk' k) = Some final"
    by (simp add: e context_stopCharging_def c Let_def final_def)
  assume "find (\<lambda>s. s_id s = s_id session) (SESSIONS (db k)) \<noteq> None"
  then have "find (\<lambda>s. s_id s = s_id session) (SESSIONS (db k1)) \<noteq> None"
    unfolding c(4) by (intro find_upd_first_keeps) (simp_all add: f_def)
  then have "find (\<lambda>s. s_id s = s_id session)
               (upd_first (\<lambda>s. s_id s = s_id session) (\<lambda>_. final) (SESSIONS (db k1))) = Some final"
    by (rule find_upd_first_const) (simp add: final_def)
  then show "find (\<lambda>s. s_id s = s_id session) (SESSIONS (db (metering_tick now bk bk' k))) = Some final"
    by (simp add: e context_stopCharging_def c(1,2,3) Let_def final_def updateSession_SESSIONS)
qed


lemma kiosk_charging_fields:
  "currentSession (kiosk_charging p) = Some (new_session 1000 (DEFAULT_USERS_init 0 ! 0) 40 kiosk_at_35)"
  "SESSIONS (db (kiosk_charging p)) = [new_session 1000 (DEFAULT_USERS_init 0 ! 0) 40 kiosk_at_35]"
  "or_zero b_percentage (batteryStatus (kiosk_charging p)) = p"
  "percentage_or_null (batteryStatus (kiosk_charging p)) = (if p = 0 then None else Some p)"
proof -
  note a = kiosk_at_35_fields
  have n: "(40::real) \<noteq> 0" by simp
  show "currentSession (kiosk_charging p) = Some (new_session 1000 (DEFAULT_USERS_init 0 ! 0) 40 kiosk_at_35)"
    using handleConfirm_currentSession[OF a(1) n a(2), of 1000 mock_backend]
    by (simp add: kiosk_charging_def)
  show "SESSIONS (db (kiosk_charging p)) = [new_session 1000 (DEFAULT_USERS_init 0 ! 0) 40 kiosk_at_35]"
    using handleConfirm_SESSIONS[OF a(1) n a(2), of 1000 mock_backend]
    by (simp add: kiosk_charging_def a(3))
  show "or_zero b_percentage (batteryStatus (kiosk_charging p)) = p"
    by (simp add: kiosk_charging_def or_zero_def)
  show "percentage_or_null (batteryStatus (kiosk_charging p)) = (if p = 0 then None else Some p)"
    by (simp add: kiosk_charging_def percentage_or_null_def)
qed


lemma kiosk_paid_in_full_fields:
  "currentSession kiosk_paid_in_full = Some (new_session 1000 (DEFAULT_USERS_init 0 ! 0) 100 kiosk_at_35)"
  "SESSIONS (db kiosk_paid_in_full) = [new_session 1000 (DEFAULT_USERS_init 0 ! 0) 100 kiosk_at_35]"
  "batteryStatus kiosk_paid_in_full = batteryStatus kiosk_at_35"
proof -
  define k0 where "k0 = handleAmountSelect 100 (openCostSelection kiosk_at_35)"
  note a = kiosk_at_35_fields
  have s: "selectedAmount k0 = Some 100" and u: "currentUser k0 = Some (DEFAULT_USERS_init 0 ! 0)"
    and o: "SESSIONS (db k0) = []" "batteryStatus k0 = batteryStatus kiosk_at_35"
      "settings k0 = settings kiosk_at_35"
    by (simp_all add: k0_def handleAmountSelect_def openCostSelection_def a balance_or_zero_def
        DEFAULT_USERS_init_def)
  have n: "(100::real) \<noteq> 0" by simp
  have e: "kiosk_paid_in_full = handleConfirm 1000 mock_backend k0"
    by (simp add: kiosk_paid_in_full_def k0_def)
  have ns: "new_session 1000 (DEFAULT_USERS_init 0 ! 0) 100 k0
            = new_session 1000 (DEFAULT_USERS_init 0 ! 0) 100 kiosk_at_35"
    by (simp add: new_session_def o)
  show "currentSession kiosk_paid_in_full = Some (new_session 1000 (DEFAULT_USERS_init 0 ! 0) 100 kiosk_at_35)"
    using handleConfirm_currentSession[OF s n u, of 1000 mock_backend] by (simp add: e ns)
  show "SESSIONS (db kiosk_paid_in_full) = [new_session 1000 (DEFAULT_USERS_init 0 ! 0) 100 kiosk_at_35]"
    using handleConfirm_SESSIONS[OF s n u, of 1000 mock_backend] by (simp add: e ns o)
  show "batteryStatus kiosk_paid_in_full = batteryStatus kiosk_at_35"
    using s u by (simp add: e handleConfirm_def Let_def o split: prod.splits)
qed

lemma paid_in_full_session:
  "s_remainingBalance (new_session 1000 (DEFAULT_USERS_init 0 ! 0) 100 kiosk_at_35) = 0"
  "s_targetBattery (new_session 1000 (DEFAULT_USERS_init 0 ! 0) 100 kiosk_at_35) = 100"
  by (simp_all add: new_session_def kiosk_at_35_fields calculateTargetBattery_def or_zero_def
      DEFAULT_SETTINGS_def DEFAULT_USERS_init_def)

lemma same_charge_refl: "same_charge h h"
  by (simp add: same_charge_def)

lemma same_charge_trans: "same_charge a b \<Longrightarrow> same_charge b c \<Longrightarrow> same_charge a c"
  by (simp add: same_charge_def)

lemma same_charge_stopCharging: "same_charge h (snd (stopCharging bk h))"
  by (simp add: same_charge_def stopCharging_def)

lemma same_charge_scan:
  "keeps_charge_start (ScanRfid now bk) \<Longrightarrow> same_charge h (snd (hardware_scanRfid now bk h))"
  by (auto simp add: same_charge_def hardware_scanRfid_def Let_def
      split: fetched.splits scan_action.splits option.splits)

lemma same_charge_onmessage:
  "re_type ev \<noteq> charging_started \<Longrightarrow> same_charge h (hardware_onmessage now ev h)"
  by (cases "re_type ev") (simp_all add: same_charge_def hardware_onmessage_def)

lemma rfid_message_hardware: "hardware (rfid_message now ev k) = hardware_onmessage now ev (hardware k)"
  by (simp add: rfid_message_def handleRfidEvent_def split: option.splits rfid_event_type.splits)

lemma rfid_message_currentSession: "currentSession (rfid_message now ev k) = currentSession k"
  by (simp add: rfid_message_def handleRfidEvent_def split: option.splits rfid_event_type.splits)

lemma scanRfid_SESSIONS: "SESSIONS (db (scanRfid now bk k)) = SESSIONS (db k)"
  using scanRfid_db[of now bk k] by (auto simp: getUsers_SESSIONS)

lemma handleStop_hardware: "hardware (handleStop now bk k) = hardware k \<or> hardware (handleStop now bk k) = snd (stopCharging bk (hardware k))"
  by (simp add: handleStop_def Let_def split: option.splits)

lemma handleStop_currentSession: "currentSession (handleStop now bk k) = None"
  by (simp add: handleStop_def Let_def split: option.splits)



lemma neutral_step_hardware:
  assumes "keeps_charge_start e"
  shows "same_charge (hardware k) (hardware (step e k))"
proof (cases e)
  case (ScanRfid now bk)
  then show ?thesis using assms same_charge_scan[of now bk "hardware k"]
    by (simp add: scanRfid_hardware)
next
  case (Message now ev)
  then show ?thesis using assms same_charge_onmessage[of ev "hardware k" now]
    by (simp add: rfid_message_hardware)
next
  case (Stop now bk)
  then show ?thesis
    using handleStop_hardware[of now bk k] same_charge_stopCharging[of "hardware k" bk]
    by (auto simp: same_charge_refl)
qed (use assms in \<open>simp_all add: same_charge_refl authScreen_mount_def openCostSelection_def
      handleAmountSelect_def handleCustomAmount_def refreshBatteryStatus_def split: option.splits\<close>)

lemma neutral_step_session:
  assumes "keeps_charge_start e"
  shows "session_kept k (step e k)"
proof (cases e)
  case (ScanRfid now bk)
  then show ?thesis by (simp add: session_kept_def scanRfid_other scanRfid_SESSIONS)
next
  case (Message now ev)
  then show ?thesis by (simp add: session_kept_def rfid_message_currentSession rfid_message_db)
next
  case (Stop now bk)
  then show ?thesis by (simp add: session_kept_def handleStop_currentSession)
qed (use assms in \<open>simp_all add: session_kept_def authScreen_mount_def openCostSelection_def
      handleAmountSelect_def handleCustomAmount_def refreshBatteryStatus_def getUsers_SESSIONS
      split: option.splits\<close>)

lemma neutral_step_none:
  assumes "keeps_charge_start e" and "currentSession k = None"
  shows "currentSession (step e k) = None"
  using neutral_step_session[OF assms(1), of k] assms(2) by (auto simp: session_kept_def)

lemma neutral_run:
  "list_all keeps_charge_start es \<Longrightarrow>
     same_charge (hardware k) (hardware (run es k)) \<and> session_kept k (run es k)"
proof (induction es arbitrary: k)
  case Nil
  then show ?case by (simp add: same_charge_refl session_kept_def)
next
  case (Cons e es)
  then have e: "keeps_charge_start e" and es: "list_all keeps_charge_start es" by simp_all
  note ih = Cons.IH[OF es, of "step e k"]
  have h: "same_charge (hardware k) (hardware (run (e # es) k))"
    using same_charge_trans[OF neutral_step_hardware[OF e, of k]] ih by simp
  have s: "session_kept k (run (e # es) k)"
    using neutral_step_session[OF e, of k] ih by (auto simp: session_kept_def)
  show ?case using h s by simp
qed



lemma tick_idle: "\<not> tick_fires k \<Longrightarrow> metering_tick now bk bk' k = k"
  by (simp add: tick_fires_def metering_tick_def split: option.splits)

lemma context_stopCharging_hardware:
  "same_charge (hardware k) (hardware (context_stopCharging status now bk k))"
  by (simp add: context_stopCharging_def Let_def same_charge_refl same_charge_stopCharging
      split: option.splits)

lemma tick_hardware:
  assumes "tick_fires k"
  shows "same_charge (simulateCharging now bk (hardware k)) (hardware (metering_tick now bk bk' k))"
proof -
  obtain c where c: "currentSession k = Some c" "s_status c = in_progress"
    using assms by (auto simp: tick_fires_def split: option.splits)
  show ?thesis
  proof (cases "s_targetBattery c \<le> or_zero b_percentage (batteryStatus k)")
    case True
    then show ?thesis
      using c context_stopCharging_hardware[of
          "k\<lparr>db := updateSession (s_id c)
                 (\<lambda>s. s\<lparr>s_energyDelivered := getEnergyDelivered (simulateCharging now bk (hardware k)),
                        s_current := or_zero b_current (batteryStatus k),
                        s_voltage := or_zero b_voltage (batteryStatus k),
                        s_power := or_zero b_power (batteryStatus k)\<rparr>) (db k),
              hardware := simulateCharging now bk (hardware k)\<rparr>" completed now bk']
      by (simp add: metering_tick_def Let_def)
  next
    case False
    then show ?thesis using c by (simp add: metering_tick_def Let_def same_charge_refl)
  qed
qed

lemma tick_recorded:
  assumes "tick_fires k"
  shows "recorded_energy (metering_tick now bk bk' k) = None
       \<or> recorded_energy (metering_tick now bk bk' k)
           = Some (getEnergyDelivered (simulateCharging now bk (hardware k)))"
proof -
  obtain c where c: "currentSession k = Some c" "s_status c = in_progress"
    using assms by (auto simp: tick_fires_def split: option.splits)
  let ?f = "\<lambda>s. s\<lparr>s_energyDelivered := getEnergyDelivered (simulateCharging now bk (hardware k)),
                        s_current := or_zero b_current (batteryStatus k),
                        s_voltage := or_zero b_voltage (batteryStatus k),
                        s_power := or_zero b_power (batteryStatus k)\<rparr>"
  show ?thesis
  proof (cases "s_targetBattery c \<le> or_zero b_percentage (batteryStatus k)")
    case True
    let ?final = "c\<lparr>s_status := completed, s_endTime := Some now,
                          s_endBattery := percentage_or_null (batteryStatus k),
                          s_energyDelivered := getEnergyDelivered (simulateCharging now bk (hardware k))\<rparr>"
    note r = metering_tick_reached[OF c True, of now bk bk']
    show ?thesis
    proof (cases "find (\<lambda>s. s_id s = s_id c) (SESSIONS (db k))")
      case None
      then have n: "\<forall>x \<in> set (SESSIONS (db k)). \<not> s_id x = s_id c" by (auto simp: find_None_iff)
      have "SESSIONS (db (metering_tick now bk bk' k)) = SESSIONS (db k)"
        using c True n
        by (simp add: metering_tick_def Let_def context_stopCharging_def updateSession_SESSIONS
            upd_first_none)
      then show ?thesis using r(1) None by (simp add: recorded_energy_def)
    next
      case (Some a)
      then have "find (\<lambda>s. s_id s = s_id c) (SESSIONS (db (metering_tick now bk bk' k))) = Some ?final"
        using r(2) by simp
      then show ?thesis using r(1) by (simp add: recorded_energy_def)
    qed
  next
    case False
    then have b: "or_zero b_percentage (batteryStatus k) < s_targetBattery c" by simp
    have cs: "currentSession (metering_tick now bk bk' k) = Some c"
      by (rule metering_tick_below(1)[OF c b])
    have ss: "SESSIONS (db (metering_tick now bk bk' k)) = upd_first (\<lambda>s. s_id s = s_id c) ?f (SESSIONS (db k))"
      using c b by (simp add: metering_tick_def Let_def updateSession_SESSIONS)
    have "find (\<lambda>s. s_id s = s_id c) (upd_first (\<lambda>s. s_id s = s_id c) ?f (SESSIONS (db k)))
            = map_option ?f (find (\<lambda>s. s_id s = s_id c) (SESSIONS (db k)))"
      by (rule find_upd_first_same) simp
    then show ?thesis
      by (cases "find (\<lambda>s. s_id s = s_id c) (SESSIONS (db k))")
        (simp_all add: recorded_energy_def cs ss)
  qed
qed

lemma second_tick_hardware:
  assumes "h_startTime h \<le> now1" and "now1 \<le> now2"
    and "same_charge (simulateCharging now1 bk1 h) g"
  shows "h_energyDelivered g \<le> h_energyDelivered (simulateCharging now2 bk2 g)
       \<and> h_currentBattery g \<le> h_currentBattery (simulateCharging now2 bk2 g)"
proof (cases "h_chargingActive g")
  case False
  then show ?thesis by (simp add: simulateCharging_idle)
next
  case True
  then have a1: "h_chargingActive (simulateCharging now1 bk1 h)"
    using assms(3) by (simp add: same_charge_def)
  then have act: "h_chargingActive h" using simulateCharging_stays_idle[of h now1 bk1] by auto
  note s1 = simulateCharging_active[OF act, of now1 bk1]
  have st: "h_startTime g = h_startTime h" and tg: "h_targetBattery g = h_targetBattery h"
    and eg: "h_energyDelivered g = energy_at now1 (h_startTime h)"
    and bg: "h_currentBattery g \<le> h_targetBattery h"
    using assms(3) by (simp_all add: same_charge_def s1 simulateCharging_battery[OF act])
  have nn: "0 \<le> energy_at now2 (h_startTime h)" using assms(1,2) by (simp add: energy_at_nonneg)
  have "h_energyDelivered g \<le> h_energyDelivered (simulateCharging now2 bk2 g)"
    using energy_at_mono[OF assms(2)] by (simp add: eg simulateCharging_active(1)[OF True] st)
  moreover have "h_currentBattery g \<le> h_currentBattery (simulateCharging now2 bk2 g)"
    using bg nn by (simp add: simulateCharging_battery[OF True] st tg)
  ultimately show ?thesis by simp
qed

lemma same_charge_values:
  "same_charge h h' \<Longrightarrow> h_energyDelivered h' = h_energyDelivered h \<and> h_currentBattery h' = h_currentBattery h
     \<and> h_startTime h' = h_startTime h"
  by (simp add: same_charge_def)

lemma session_kept_fires: "session_kept k g \<Longrightarrow> \<not> tick_fires k \<Longrightarrow> \<not> tick_fires g"
  by (auto simp: session_kept_def tick_fires_def)

lemma session_kept_recorded:
  "session_kept k g \<Longrightarrow> recorded_energy g = recorded_energy k \<or> recorded_energy g = None"
proof -
  assume "session_kept k g"
  then consider "currentSession g = currentSession k \<and> SESSIONS (db g) = SESSIONS (db k)"
    | "currentSession g = None" by (auto simp: session_kept_def)
  then show ?thesis
  proof cases
    case 1
    then have "recorded_energy g = recorded_energy k"
      by (simp add: recorded_energy_def split: option.splits)
    then show ?thesis by simp
  next
    case 2
    then show ?thesis by (simp add: recorded_energy_def)
  qed
qed

lemma tick_running:
  assumes "currentSession k = Some c" and "s_status c = in_progress"
    and "or_zero b_percentage (batteryStatus k) < s_targetBattery c"
  shows "hardware (metering_tick now bk bk' k) = simulateCharging now bk (hardware k)"
    and "SESSIONS (db (metering_tick now bk bk' k))
           = upd_first (\<lambda>s. s_id s = s_id c)
               (\<lambda>s. s\<lparr>s_energyDelivered := getEnergyDelivered (simulateCharging now bk (hardware k)),
                      s_current := or_zero b_current (batteryStatus k),
                      s_voltage := or_zero b_voltage (batteryStatus k),
                      s_power := or_zero b_power (batteryStatus k)\<rparr>) (SESSIONS (db k))"
    and "currentSession (metering_tick now bk bk' k) = Some c"
    and "batteryStatus (metering_tick now bk bk' k) = batteryStatus k"
  using assms by (simp_all add: metering_tick_def Let_def updateSession_SESSIONS)

lemma kiosk_started_fields:
  "currentSession kiosk_started = Some (new_session 1000 (DEFAULT_USERS_init 0 ! 0) 40 kiosk_at_35)"
  "SESSIONS (db kiosk_started) = [new_session 1000 (DEFAULT_USERS_init 0 ! 0) 40 kiosk_at_35]"
  "batteryStatus kiosk_started = batteryStatus kiosk_at_35"
  "hardware kiosk_started
     = \<lparr>h_chargingActive = True, h_currentBattery = 35, h_targetBattery = 75, h_startTime = 1000,
        h_energyDelivered = 0, h_startCharging_calls = 1\<rparr>"
  "currentUser kiosk_started \<noteq> None"
proof -
  note a = kiosk_at_35_fields
  have n: "(40::real) \<noteq> 0" by simp
  show "currentSession kiosk_started = Some (new_session 1000 (DEFAULT_USERS_init 0 ! 0) 40 kiosk_at_35)"
    using handleConfirm_currentSession[OF a(1) n a(2), of 1000 live_backend]
    by (simp add: kiosk_started_def)
  show "SESSIONS (db kiosk_started) = [new_session 1000 (DEFAULT_USERS_init 0 ! 0) 40 kiosk_at_35]"
    using handleConfirm_SESSIONS[OF a(1) n a(2), of 1000 live_backend]
    by (simp add: kiosk_started_def a(3))
  show "batteryStatus kiosk_started = batteryStatus kiosk_at_35"
    using a(1,2) by (simp add: kiosk_started_def handleConfirm_def Let_def split: prod.splits)
  show "hardware kiosk_started
     = \<lparr>h_chargingActive = True, h_currentBattery = 35, h_targetBattery = 75, h_startTime = 1000,
        h_energyDelivered = 0, h_startCharging_calls = 1\<rparr>"
    using handleConfirm_hardware[OF a(1) n a(2), of 1000 live_backend]
    by (simp add: kiosk_started_def new_session_kiosk_at_35 a(6) startCharging_def
        getChargingStatus_def live_backend_def checkBackendAvailable_def hardware_init_def Let_def)
  show "currentUser kiosk_started \<noteq> None"
    using handleConfirm_currentUser[OF a(1) n a(2), of 1000 live_backend]
    by (simp add: kiosk_started_def)
qed

lemma first_tick:
  "hardware (metering_tick 3601000 live_backend live_backend kiosk_started)
     = \<lparr>h_chargingActive = True, h_currentBattery = 55, h_targetBattery = 75, h_startTime = 1000,
        h_energyDelivered = 2000, h_startCharging_calls = 1\<rparr>"
  "map s_energyDelivered (SESSIONS (db (metering_tick 3601000 live_backend live_backend kiosk_started))) = [2000]"
  "map s_status (SESSIONS (db (metering_tick 3601000 live_backend live_backend kiosk_started))) = [in_progress]"
  "currentSession (metering_tick 3601000 live_backend live_backend kiosk_started)
     = Some (new_session 1000 (DEFAULT_USERS_init 0 ! 0) 40 kiosk_at_35)"
  "batteryStatus (metering_tick 3601000 live_backend live_backend kiosk_started) = batteryStatus kiosk_at_35"
  "currentUser (metering_tick 3601000 live_backend live_backend kiosk_started) \<noteq> None"
  "map s_id (SESSIONS (db (metering_tick 3601000 live_backend live_backend kiosk_started))) = [1000]"
proof -
  let ?s = "new_session 1000 (DEFAULT_USERS_init 0 ! 0) 40 kiosk_at_35"
  note c = kiosk_started_fields
  have st: "s_status ?s = in_progress" and tg: "s_targetBattery ?s = 75" and sid: "s_id ?s = 1000"
    by (simp_all add: new_session_kiosk_at_35)
  have b: "or_zero b_percentage (batteryStatus kiosk_started) < s_targetBattery ?s"
    by (simp add: c(3) kiosk_at_35_fields or_zero_def tg)
  note t = tick_running[OF c(1) st b, of 3601000 live_backend live_backend]
  have h: "simulateCharging 3601000 live_backend (hardware kiosk_started)
     = \<lparr>h_chargingActive = True, h_currentBattery = 55, h_targetBattery = 75, h_startTime = 1000,
        h_energyDelivered = 2000, h_startCharging_calls = 1\<rparr>"
    by (simp add: c(4) simulateCharging_def Let_def)
  show "hardware (metering_tick 3601000 live_backend live_backend kiosk_started)
     = \<lparr>h_chargingActive = True, h_currentBattery = 55, h_targetBattery = 75, h_startTime = 1000,
        h_energyDelivered = 2000, h_startCharging_calls = 1\<rparr>"
    by (simp add: t(1) h)
  show "map s_energyDelivered (SESSIONS (db (metering_tick 3601000 live_backend live_backend kiosk_started))) = [2000]"
    by (simp add: t(2) c(2) sid h getEnergyDelivered_def)
  show "map s_status (SESSIONS (db (metering_tick 3601000 live_backend live_backend kiosk_started))) = [in_progress]"
    by (simp add: t(2) c(2) sid st)
  show "currentSession (metering_tick 3601000 live_backend live_backend kiosk_started) = Some ?s"
    by (rule t(3))
  show "batteryStatus (metering_tick 3601000 live_backend live_backend kiosk_started) = batteryStatus kiosk_at_35"
    by (simp add: t(4) c(3))
  show "currentUser (metering_tick 3601000 live_backend live_backend kiosk_started) \<noteq> None"
    using c(5) c(1) st b by (simp add: metering_tick_def Let_def)
  show "map s_id (SESSIONS (db (metering_tick 3601000 live_backend live_backend kiosk_started))) = [1000]"
    by (simp add: t(2) c(2) sid)
qed

section \<open>Properties of the identity source\<close>



lemma raw_read_repeat:
  "t2 - t1 < window \<Longrightarrow>
   raw_read window restart token t2 \<lparr>lastToken = Some token, lastSeen = t1\<rparr>
     = (False, \<lparr>lastToken = Some token, lastSeen = (if restart then t2 else t1)\<rparr>)"
  by (simp add: raw_read_def)

lemma raw_read_first: "raw_read window restart token t source_init = (True, \<lparr>lastToken = Some token, lastSeen = t\<rparr>)"
  by (simp add: raw_read_def source_init_def)

section \<open>The claims\<close>

subsection \<open>Sessions in progress\<close>

text \<open>
  Claim C1 as stated fails: \<open>handleConfirm\<close> does not look for a session in progress.
  After a first confirmation the stored session is \<open>in_progress\<close>; the user opens the
  cost selection again, selects 20 rupees and confirms, and the store holds two sessions
  with status \<open>in_progress\<close>.
\<close>

theorem second_session_counterexample:
  "getActiveSession (db (run [Confirm 1000 mock_backend, OpenCostSelection, AmountSelect 20] kiosk_at_35)) \<noteq> None
   \<and> in_progress_count
        (db (run [Confirm 1000 mock_backend, OpenCostSelection, AmountSelect 20, Confirm 2000 mock_backend]
               kiosk_at_35)) = 2"
proof -
  have a: "selectedAmount kiosk_at_35 = Some 40" "currentUser kiosk_at_35 = Some (DEFAULT_USERS_init 0 ! 0)"
    by (simp_all add: kiosk_at_35_def kiosk_init_def)
  define k1 where "k1 = handleConfirm 1000 mock_backend kiosk_at_35"
  have c0: "in_progress_count (db kiosk_at_35) = 0"
    by (simp add: kiosk_at_35_fields in_progress_count_def getSessions_def)
  have c1: "in_progress_count (db k1) = 1"
    unfolding k1_def using handleConfirm_count[OF a(1) _ a(2), of 1000 mock_backend] c0 by simp
  have u1: "currentUser k1 = Some ((DEFAULT_USERS_init 0 ! 0)\<lparr>u_balance := u_balance (DEFAULT_USERS_init 0 ! 0) - 40\<rparr>)"
    unfolding k1_def using handleConfirm_currentUser[OF a(1) _ a(2), of 1000 mock_backend] by simp
  define k2 where "k2 = handleAmountSelect 20 (openCostSelection k1)"
  have s2: "selectedAmount k2 = Some 20"
    by (simp add: k2_def handleAmountSelect_def openCostSelection_def balance_or_zero_def u1
        DEFAULT_USERS_init_def)
  have u2: "currentUser k2 = currentUser k1" and d2: "db k2 = db k1"
    by (simp_all add: k2_def handleAmountSelect_def openCostSelection_def)
  have c2: "in_progress_count (db (handleConfirm 2000 mock_backend k2)) = 2"
    using handleConfirm_count[OF s2 _ u2[unfolded u1], of 2000 mock_backend] c1 d2 by simp
  have g: "getActiveSession (db k2) \<noteq> None" using c1 d2 by (simp add: getActiveSession_None)
  show ?thesis using g c2 by (simp add: k1_def k2_def)
qed

text \<open>
  Claim C1, amended. Along every run in which each confirmation meets a store without a
  session in progress (\<open>getActiveSession\<close> is null), at most one stored session is
  \<open>in_progress\<close> after every step. \<open>handleConfirm\<close> itself makes no such check: a
  confirmation that has an amount and a user adds one \<open>in_progress\<close> session, whatever
  the store holds.
\<close>

theorem single_session_when_confirms_idle:
  assumes "in_progress_count (db k) \<le> 1" and "confirms_when_idle evs k"
  shows "(\<forall>n \<le> length evs. in_progress_count (db (run (take n evs) k)) \<le> 1)
       \<and> (\<forall>now bk amount user.
             selectedAmount k = Some amount \<and> amount \<noteq> 0 \<and> currentUser k = Some user
             \<longrightarrow> in_progress_count (db (handleConfirm now bk k)) = Suc (in_progress_count (db k)))"
  using run_count[OF assms] handleConfirm_count by blast

theorem single_session_when_confirms_idle_witness:
  "in_progress_count (db kiosk_at_35) = 0
   \<and> confirms_when_idle [Confirm 1000 mock_backend, Stop 5000 mock_backend, Confirm 6000 mock_backend]
        kiosk_at_35
   \<and> in_progress_count (db (run [Confirm 1000 mock_backend] kiosk_at_35)) = 1
   \<and> in_progress_count (db (run [Confirm 1000 mock_backend, Stop 5000 mock_backend] kiosk_at_35)) = 0
   \<and> in_progress_count
        (db (run [Confirm 1000 mock_backend, Stop 5000 mock_backend, Confirm 6000 mock_backend]
               kiosk_at_35)) = 1"
proof -
  let ?evs = "[Confirm 1000 mock_backend, Stop 5000 mock_backend, Confirm 6000 mock_backend]"
  note a = kiosk_at_35_fields
  have n: "(40::real) \<noteq> 0" by simp
  define k1 where "k1 = handleConfirm 1000 mock_backend kiosk_at_35"
  define s1 where "s1 = new_session 1000 (DEFAULT_USERS_init 0 ! 0) 40 kiosk_at_35"
  have c0: "in_progress_count (db kiosk_at_35) = 0"
    by (simp add: in_progress_count_def getSessions_def a)
  have S1: "SESSIONS (db k1) = [s1]" and cs1: "currentSession k1 = Some s1"
    and sel1: "selectedAmount k1 = Some 40"
    and cu1: "currentUser k1 = Some ((DEFAULT_USERS_init 0 ! 0)\<lparr>u_balance := u_balance (DEFAULT_USERS_init 0 ! 0) - 40\<rparr>)"
    unfolding k1_def s1_def
    using handleConfirm_SESSIONS[OF a(1) n a(2), of 1000 mock_backend]
      handleConfirm_currentSession[OF a(1) n a(2), of 1000 mock_backend]
      handleConfirm_currentUser[OF a(1) n a(2), of 1000 mock_backend]
    by (simp_all add: a handleConfirm_def Let_def split: prod.splits)
  define k2 where "k2 = handleStop 5000 mock_backend k1"
  have st: "s_status s1 = in_progress" by (simp add: s1_def new_session_def)
  have S2: "in_progress_count (db k2) = 0"
    unfolding k2_def in_progress_count_def getSessions_def
    by (simp add: handleStop_SESSIONS[OF cs1] S1)
  have idle2: "getActiveSession (db k2) = None" using S2 by (simp add: getActiveSession_None)
  have sel2: "selectedAmount k2 = Some 40" and cu2: "currentUser k2 = currentUser k1"
    by (simp_all add: k2_def handleStop_def Let_def cs1 sel1)
  have c3: "in_progress_count (db (handleConfirm 6000 mock_backend k2)) = 1"
    using handleConfirm_count[OF sel2 n cu2[unfolded cu1], of 6000 mock_backend] S2 by simp
  have c1: "in_progress_count (db k1) = 1"
    by (simp add: in_progress_count_def getSessions_def S1 st)
  have idle0: "getActiveSession (db kiosk_at_35) = None" using c0 by (simp add: getActiveSession_None)
  have w: "confirms_when_idle ?evs kiosk_at_35"
    using idle0 idle2 by (simp add: k1_def k2_def)
  have le: "in_progress_count (db kiosk_at_35) \<le> 1" using c0 by simp
  show ?thesis
    using single_session_when_confirms_idle[OF le w] c0 w c1 S2 c3
    by (simp add: k1_def k2_def)
qed

subsection \<open>The debit at session creation\<close>

text \<open>
  Claim C2 as stated fails: \<open>handleConfirm\<close> does not subtract the amount from the
  stored balance. It writes the balance of the context's copy of the user, minus the
  amount. On a fresh installation the store gives user 1 a balance of 100; the event
  stream logs him in with the balance 150 the backend holds; he confirms 40 rupees, and
  the stored balance is 110.
\<close>

theorem debit_counterexample:
  "stored_balance ''1''
      (db (run [OpenAuthScreen, Message 500 sheet_event, OpenCostSelection, AmountSelect 40] (kiosk_init 0))) = Some 100
   \<and> selectedAmount (run [OpenAuthScreen, Message 500 sheet_event, OpenCostSelection, AmountSelect 40] (kiosk_init 0))
        = Some 40
   \<and> stored_balance ''1''
        (db (run [OpenAuthScreen, Message 500 sheet_event, OpenCostSelection, AmountSelect 40, Confirm 1000 live_backend]
               (kiosk_init 0))) = Some 110"
proof -
  let ?K = "run [OpenAuthScreen, Message 500 sheet_event, OpenCostSelection, AmountSelect 40] (kiosk_init 0)"
  note a = after_sheet_event
  have n: "(40::real) \<noteq> 0" by simp
  have i: "u_id sheet_user = ''1''" "u_balance sheet_user = 150" by (simp_all add: sheet_user_def)
  have f: "find (\<lambda>u. u_id u = u_id sheet_user) (users_of (db ?K)) = Some (DEFAULT_USERS_init 0 ! 0)"
    unfolding a(3) i by (simp add: users_of_stored_install DEFAULT_USERS_init_def)
  have d: "defaults_named (db ?K)" unfolding a(3) by (rule stored_install_named)
  have b0: "stored_balance ''1'' (db ?K) = Some 100"
    using stored_balance_found[OF f] by (simp add: i DEFAULT_USERS_init_def)
  have "stored_balance ''1'' (db (handleConfirm 1000 live_backend ?K)) = Some 110"
    using handleConfirm_stored_balance[OF a(2) n a(1) d f, of 1000 live_backend]
    by (simp add: stored_balance_def i)
  moreover have "run [OpenAuthScreen, Message 500 sheet_event, OpenCostSelection, AmountSelect 40, Confirm 1000 live_backend]
               (kiosk_init 0) = handleConfirm 1000 live_backend ?K"
    using run_snoc[of "[OpenAuthScreen, Message 500 sheet_event, OpenCostSelection, AmountSelect 40]"
        "Confirm 1000 live_backend" "kiosk_init 0"] by simp
  ultimately show ?thesis using b0 a(2) by simp
qed


text \<open>
  Claim C2, amended. For every logged-in user whose id \<open>getUsers\<close> shows and every
  confirmed amount, \<open>handleConfirm\<close> stores, as the balance of that user, the balance
  of the context's copy of the user minus the amount, and appends the session record,
  carrying that amount, in the same run of the handler. Where the context's copy carries
  the stored balance this debits exactly the amount. Presenting a card again afterwards,
  through \<open>scanRfid\<close> or an event of the stream, changes no stored user, so nothing is
  deducted a second time.
\<close>

theorem confirm_writes_context_balance:
  assumes "selectedAmount k = Some amount" and "amount \<noteq> 0" and "currentUser k = Some user"
    and "defaults_named (db k)"
    and "find (\<lambda>u. u_id u = u_id user) (users_of (db k)) = Some stored"
  shows "stored_balance (u_id user) (db (handleConfirm now bk k)) = Some (u_balance user - amount)
       \<and> SESSIONS (db (handleConfirm now bk k)) = SESSIONS (db k) @ [new_session now user amount k]
       \<and> s_paidAmount (new_session now user amount k) = amount
       \<and> (u_balance stored = u_balance user
            \<longrightarrow> stored_balance (u_id user) (db (handleConfirm now bk k)) = Some (u_balance stored - amount))
       \<and> users_of (db (scanRfid now' bk' (handleConfirm now bk k))) = users_of (db (handleConfirm now bk k))
       \<and> db (rfid_message now' ev (handleConfirm now bk k)) = db (handleConfirm now bk k)"
proof -
  have 1: "stored_balance (u_id user) (db (handleConfirm now bk k)) = Some (u_balance user - amount)"
    using handleConfirm_stored_balance[OF assms, of now bk] by (simp add: stored_balance_def)
  have 2: "users_of (db (scanRfid now' bk' (handleConfirm now bk k))) = users_of (db (handleConfirm now bk k))"
    by (rule scanRfid_users_of) (rule handleConfirm_defaults_named[OF assms(4)])
  show ?thesis
    using 1 2 handleConfirm_SESSIONS[OF assms(1-3), of now bk]
    by (simp add: new_session_kiosk_at_35 rfid_message_db)
qed


theorem confirm_writes_context_balance_witness:
  "selectedAmount kiosk_at_35 = Some 40 \<and> (40::real) \<noteq> 0
   \<and> currentUser kiosk_at_35 = Some (DEFAULT_USERS_init 0 ! 0)
   \<and> defaults_named (db kiosk_at_35)
   \<and> stored_balance ''1'' (db kiosk_at_35) = Some 100
   \<and> stored_balance ''1'' (db (handleConfirm 1000 mock_backend kiosk_at_35)) = Some 60
   \<and> stored_balance ''1'' (db (scanRfid 2000 mock_backend (handleConfirm 1000 mock_backend kiosk_at_35)))
        = Some 60"
proof -
  note a = kiosk_at_35_fields
  have n: "(40::real) \<noteq> 0" by simp
  have i: "u_id (DEFAULT_USERS_init 0 ! 0) = ''1''" "u_balance (DEFAULT_USERS_init 0 ! 0) = 100"
    by (simp_all add: DEFAULT_USERS_init_def)
  have d: "defaults_named (db kiosk_at_35)" unfolding kiosk_at_35_db by (rule stored_install_named)
  have f: "find (\<lambda>u. u_id u = u_id (DEFAULT_USERS_init 0 ! 0)) (users_of (db kiosk_at_35))
             = Some (DEFAULT_USERS_init 0 ! 0)"
    unfolding kiosk_at_35_db by (rule find_lalit)
  have b0: "stored_balance ''1'' (db kiosk_at_35) = Some 100"
    using stored_balance_found[OF f] by (simp add: i)
  note t = confirm_writes_context_balance[OF a(1) n a(2) d f, of 1000 mock_backend 2000 mock_backend]
  from t have t1: "stored_balance ''1'' (db (handleConfirm 1000 mock_backend kiosk_at_35)) = Some 60"
    by (simp add: i)
  from t have t5: "users_of (db (scanRfid 2000 mock_backend (handleConfirm 1000 mock_backend kiosk_at_35)))
        = users_of (db (handleConfirm 1000 mock_backend kiosk_at_35))"
    by blast
  have t6: "stored_balance ''1'' (db (scanRfid 2000 mock_backend (handleConfirm 1000 mock_backend kiosk_at_35)))
        = Some 60"
    using t1 by (simp add: stored_balance_def t5)
  show ?thesis using a(1) n a(2) d b0 t1 t6 by (intro conjI)
qed

subsection \<open>A start that the relay refuses\<close>

text \<open>
  Claim C3 as stated fails: \<open>handleConfirm\<close> writes the balance and stores the session
  before it calls \<open>hardware.startCharging\<close>, and does not read what the call returns.
  With a backend that refuses to start the charge the call returns false, yet the store
  then holds a session \<open>in_progress\<close> and the balance of the user has gone from 100
  to 60.
\<close>

theorem failed_start_counterexample:
  "fst (startCharging 1000 failing_backend 75 (hardware kiosk_at_35)) = False
   \<and> SESSIONS (db kiosk_at_35) = []
   \<and> map s_status (SESSIONS (db (handleConfirm 1000 failing_backend kiosk_at_35))) = [in_progress]
   \<and> stored_balance ''1'' (db kiosk_at_35) = Some 100
   \<and> stored_balance ''1'' (db (handleConfirm 1000 failing_backend kiosk_at_35)) = Some 60"
proof -
  note a = kiosk_at_35_fields
  have n: "(40::real) \<noteq> 0" by simp
  have i: "u_id (DEFAULT_USERS_init 0 ! 0) = ''1''" "u_balance (DEFAULT_USERS_init 0 ! 0) = 100"
    by (simp_all add: DEFAULT_USERS_init_def)
  have f: "fst (startCharging 1000 failing_backend 75 (hardware kiosk_at_35)) = False"
    by (simp add: startCharging_def getChargingStatus_def failing_backend_def live_backend_def
        checkBackendAvailable_def Let_def)
  have s: "map s_status (SESSIONS (db (handleConfirm 1000 failing_backend kiosk_at_35))) = [in_progress]"
    by (simp add: handleConfirm_SESSIONS[OF a(1) n a(2)] a new_session_kiosk_at_35)
  have b0: "stored_balance ''1'' (db kiosk_at_35) = Some 100"
    using find_lalit by (simp add: stored_balance_def kiosk_at_35_db i)
  have b1: "stored_balance ''1'' (db (handleConfirm 1000 failing_backend kiosk_at_35)) = Some 60"
    using handleConfirm_stored_balance[OF a(1) n a(2) _ find_lalit[folded kiosk_at_35_db],
        of 1000 failing_backend]
    by (simp add: stored_balance_def i kiosk_at_35_db stored_install_named)
  show ?thesis using f s b0 b1 by (simp add: a)
qed


text \<open>
  Claim C3, amended. \<open>handleConfirm\<close> writes the balance and creates the session
  record before it calls \<open>hardware.startCharging\<close>, and a failure of the call undoes
  neither: for every start attempt in which the call returns failure, the store has the
  new session with status \<open>in_progress\<close>, the context has it as the current session,
  and the database is what it is after an attempt in which the call succeeds.
\<close>

theorem failed_start_keeps_session:
  assumes "selectedAmount k = Some amount" and "amount \<noteq> 0" and "currentUser k = Some user"
    and "fst (startCharging now bk (s_targetBattery (new_session now user amount k)) (hardware k)) = False"
  shows "SESSIONS (db (handleConfirm now bk k)) = SESSIONS (db k) @ [new_session now user amount k]
       \<and> s_status (new_session now user amount k) = in_progress
       \<and> currentSession (handleConfirm now bk k) = Some (new_session now user amount k)
       \<and> currentUser (handleConfirm now bk k) = Some (user\<lparr>u_balance := u_balance user - amount\<rparr>)
       \<and> db (handleConfirm now bk k) = db (handleConfirm now bk' k)"
  using handleConfirm_SESSIONS[OF assms(1-3)] handleConfirm_currentSession[OF assms(1-3)]
    handleConfirm_currentUser[OF assms(1-3)] handleConfirm_db_backend[of now bk k bk']
  by (simp add: new_session_kiosk_at_35)


theorem failed_start_keeps_session_witness:
  "selectedAmount kiosk_at_35 = Some 40 \<and> (40::real) \<noteq> 0
   \<and> currentUser kiosk_at_35 = Some (DEFAULT_USERS_init 0 ! 0)
   \<and> fst (startCharging 1000 failing_backend
            (s_targetBattery (new_session 1000 (DEFAULT_USERS_init 0 ! 0) 40 kiosk_at_35))
            (hardware kiosk_at_35)) = False
   \<and> SESSIONS (db (handleConfirm 1000 failing_backend kiosk_at_35))
        = [new_session 1000 (DEFAULT_USERS_init 0 ! 0) 40 kiosk_at_35]
   \<and> db (handleConfirm 1000 failing_backend kiosk_at_35) = db (handleConfirm 1000 live_backend kiosk_at_35)"
proof -
  note a = kiosk_at_35_fields
  have n: "(40::real) \<noteq> 0" by simp
  have f: "fst (startCharging 1000 failing_backend
            (s_targetBattery (new_session 1000 (DEFAULT_USERS_init 0 ! 0) 40 kiosk_at_35))
            (hardware kiosk_at_35)) = False"
    by (simp add: startCharging_def getChargingStatus_def failing_backend_def live_backend_def
        checkBackendAvailable_def Let_def)
  note t = failed_start_keeps_session[OF a(1) n a(2) f, of live_backend]
  from t have t1: "SESSIONS (db (handleConfirm 1000 failing_backend kiosk_at_35))
        = SESSIONS (db kiosk_at_35) @ [new_session 1000 (DEFAULT_USERS_init 0 ! 0) 40 kiosk_at_35]"
    by (rule conjunct1)
  from t have t5: "db (handleConfirm 1000 failing_backend kiosk_at_35)
        = db (handleConfirm 1000 live_backend kiosk_at_35)"
    by blast
  have t1': "SESSIONS (db (handleConfirm 1000 failing_backend kiosk_at_35))
        = [new_session 1000 (DEFAULT_USERS_init 0 ! 0) 40 kiosk_at_35]"
    using t1 by (simp only: a(3) append_Nil)
  show ?thesis
    using a(1) n a(2) f t1' t5 by (intro conjI)
qed

subsection \<open>What stops the metering\<close>

text \<open>
  Claim C4 as stated fails: the metering tick never reads \<open>remainingBalance\<close>. A user
  who pays his whole balance has a session with a remaining balance of 0 and a target of
  100 percent; with the battery at 35 percent the tick leaves the session
  \<open>in_progress\<close>, in the context and in the store.
\<close>

theorem balance_exhausted_counterexample:
  "map_option s_remainingBalance (currentSession kiosk_paid_in_full) = Some 0
   \<and> map_option s_targetBattery (currentSession kiosk_paid_in_full) = Some 100
   \<and> or_zero b_percentage (batteryStatus kiosk_paid_in_full) = 35
   \<and> map_option s_status
        (currentSession (metering_tick 2000 mock_backend mock_backend kiosk_paid_in_full))
       = Some in_progress
   \<and> map s_status (SESSIONS (db (metering_tick 2000 mock_backend mock_backend kiosk_paid_in_full)))
       = [in_progress]"
proof -
  let ?s = "new_session 1000 (DEFAULT_USERS_init 0 ! 0) 100 kiosk_at_35"
  note c = kiosk_paid_in_full_fields
  have st: "s_status ?s = in_progress" by (simp add: new_session_kiosk_at_35)
  have b: "or_zero b_percentage (batteryStatus kiosk_paid_in_full) = 35"
    by (simp add: c(3) kiosk_at_35_fields or_zero_def)
  have lt: "or_zero b_percentage (batteryStatus kiosk_paid_in_full) < s_targetBattery ?s"
    by (simp add: b paid_in_full_session)
  note t = metering_tick_below[OF c(1) st lt, of 2000 mock_backend mock_backend]
  show ?thesis by (simp add: c(1,2) b paid_in_full_session t st)
qed


text \<open>
  Claim C4, amended. For every session in progress, the metering tick stops it exactly
  when the battery percentage held in \<open>batteryStatus\<close> (0 when there is none) has
  reached the target of the session, whatever its remaining balance: the final status is
  then \<open>completed\<close>, in the context and in the stored record of that id, and
  \<open>endBattery\<close> is that percentage, or null when it is 0. Below the target the session
  and the stored statuses stay as they are.
\<close>

theorem tick_stops_on_target_only:
  assumes "currentSession k = Some session" and "s_status session = in_progress"
  shows "(s_targetBattery session \<le> or_zero b_percentage (batteryStatus k) \<longrightarrow>
            (\<exists>final. currentSession (metering_tick now bk bk' k) = Some final
               \<and> s_status final = completed
               \<and> s_endBattery final = percentage_or_null (batteryStatus k)
               \<and> s_remainingBalance final = s_remainingBalance session
               \<and> (find (\<lambda>s. s_id s = s_id session) (SESSIONS (db k)) \<noteq> None \<longrightarrow>
                    find (\<lambda>s. s_id s = s_id session) (SESSIONS (db (metering_tick now bk bk' k)))
                      = Some final)))
       \<and> (or_zero b_percentage (batteryStatus k) < s_targetBattery session \<longrightarrow>
            currentSession (metering_tick now bk bk' k) = Some session
            \<and> map s_status (SESSIONS (db (metering_tick now bk bk' k))) = map s_status (SESSIONS (db k)))"
proof (intro conjI impI)
  assume r: "s_targetBattery session \<le> or_zero b_percentage (batteryStatus k)"
  let ?final = "session\<lparr>s_status := completed, s_endTime := Some now,
                          s_endBattery := percentage_or_null (batteryStatus k),
                          s_energyDelivered := getEnergyDelivered (simulateCharging now bk (hardware k))\<rparr>"
  have "currentSession (metering_tick now bk bk' k) = Some ?final"
    by (rule metering_tick_reached(1)[OF assms r])
  moreover have "find (\<lambda>s. s_id s = s_id session) (SESSIONS (db k)) \<noteq> None \<longrightarrow>
         find (\<lambda>s. s_id s = s_id session) (SESSIONS (db (metering_tick now bk bk' k))) = Some ?final"
    using metering_tick_reached(2)[OF assms r] by blast
  ultimately show "\<exists>final. currentSession (metering_tick now bk bk' k) = Some final
               \<and> s_status final = completed
               \<and> s_endBattery final = percentage_or_null (batteryStatus k)
               \<and> s_remainingBalance final = s_remainingBalance session
               \<and> (find (\<lambda>s. s_id s = s_id session) (SESSIONS (db k)) \<noteq> None \<longrightarrow>
                    find (\<lambda>s. s_id s = s_id session) (SESSIONS (db (metering_tick now bk bk' k)))
                      = Some final)"
    by (intro exI[of _ ?final]) simp
next
  assume b: "or_zero b_percentage (batteryStatus k) < s_targetBattery session"
  show "currentSession (metering_tick now bk bk' k) = Some session"
    by (rule metering_tick_below(1)[OF assms b])
  show "map s_status (SESSIONS (db (metering_tick now bk bk' k))) = map s_status (SESSIONS (db k))"
    by (rule metering_tick_below(2)[OF assms b])
qed


theorem tick_stops_on_target_only_witness:
  "map_option s_status (currentSession (kiosk_charging 80)) = Some in_progress
   \<and> map_option s_targetBattery (currentSession (kiosk_charging 80)) = Some 75
   \<and> or_zero b_percentage (batteryStatus (kiosk_charging 80)) = 80
   \<and> map_option s_status (currentSession (metering_tick 2000 mock_backend mock_backend (kiosk_charging 80)))
        = Some completed
   \<and> map_option s_endBattery (currentSession (metering_tick 2000 mock_backend mock_backend (kiosk_charging 80)))
        = Some (Some 80)
   \<and> or_zero b_percentage (batteryStatus (kiosk_charging 50)) = 50
   \<and> map_option s_status (currentSession (metering_tick 2000 mock_backend mock_backend (kiosk_charging 50)))
        = Some in_progress"
proof -
  let ?s = "new_session 1000 (DEFAULT_USERS_init 0 ! 0) 40 kiosk_at_35"
  note c = kiosk_charging_fields
  have st: "s_status ?s = in_progress" and tg: "s_targetBattery ?s = 75"
    by (simp_all add: new_session_kiosk_at_35)
  note hi = tick_stops_on_target_only[OF c(1)[of 80] st, of 2000 mock_backend mock_backend]
  note lo = tick_stops_on_target_only[OF c(1)[of 50] st, of 2000 mock_backend mock_backend]
  from hi obtain final where
    fin: "currentSession (metering_tick 2000 mock_backend mock_backend (kiosk_charging 80)) = Some final"
      "s_status final = completed" "s_endBattery final = Some 80"
    by (auto simp add: c tg)
  from lo have low: "currentSession (metering_tick 2000 mock_backend mock_backend (kiosk_charging 50)) = Some ?s"
    by (simp add: c tg)
  show ?thesis by (simp add: c st tg fin low)
qed

subsection \<open>Metering between two ticks\<close>

text \<open>
  Claim C5 as stated fails: the energy delivered is recomputed at every tick from the
  start time of the charge, and the start time is set anew when the backend reports that
  it has switched the relay on (a \<open>charging_started\<close> event of the stream, or a scan
  answered with the action \<open>started\<close>). A session is confirmed at time 1000. The tick
  one hour later finds 2000 Wh and writes them to the session. Half an hour later a
  \<open>charging_started\<close> event arrives, and the tick another half hour later finds and
  writes 1000 Wh, while the session is \<open>in_progress\<close> throughout.
\<close>

theorem restarted_charge_counterexample:
  "map s_status
     (SESSIONS (db (run [Confirm 1000 live_backend, Tick 3601000 live_backend live_backend] kiosk_at_35)))
     = [in_progress]
   \<and> map s_energyDelivered
       (SESSIONS (db (run [Confirm 1000 live_backend, Tick 3601000 live_backend live_backend] kiosk_at_35)))
       = [2000]
   \<and> getEnergyDelivered
       (hardware (run [Confirm 1000 live_backend, Tick 3601000 live_backend live_backend] kiosk_at_35))
       = 2000
   \<and> map s_status
       (SESSIONS (db (run [Confirm 1000 live_backend, Tick 3601000 live_backend live_backend,
                           Message 5401000 started_event, Tick 7201000 live_backend live_backend]
                        kiosk_at_35)))
       = [in_progress]
   \<and> map s_energyDelivered
       (SESSIONS (db (run [Confirm 1000 live_backend, Tick 3601000 live_backend live_backend,
                           Message 5401000 started_event, Tick 7201000 live_backend live_backend]
                        kiosk_at_35)))
       = [1000]
   \<and> getEnergyDelivered
       (hardware (run [Confirm 1000 live_backend, Tick 3601000 live_backend live_backend,
                       Message 5401000 started_event, Tick 7201000 live_backend live_backend]
                    kiosk_at_35))
       = 1000"
proof -
  let ?s = "new_session 1000 (DEFAULT_USERS_init 0 ! 0) 40 kiosk_at_35"
  define k1 where "k1 = metering_tick 3601000 live_backend live_backend kiosk_started"
  define k2 where "k2 = rfid_message 5401000 started_event k1"
  note f = first_tick[folded k1_def]
  have st: "s_status ?s = in_progress" and tg: "s_targetBattery ?s = 75" and sid: "s_id ?s = 1000"
    by (simp_all add: new_session_kiosk_at_35)
  have h2: "hardware k2
     = \<lparr>h_chargingActive = True, h_currentBattery = 55, h_targetBattery = 75, h_startTime = 5401000,
        h_energyDelivered = 2000, h_startCharging_calls = 1\<rparr>"
    by (simp add: k2_def rfid_message_hardware hardware_onmessage_def started_event_def f(1))
  have o2: "currentSession k2 = Some ?s" "batteryStatus k2 = batteryStatus kiosk_at_35"
    "SESSIONS (db k2) = SESSIONS (db k1)"
    using f(6) by (auto simp add: k2_def rfid_message_def handleRfidEvent_def f(4,5))
  have b: "or_zero b_percentage (batteryStatus k2) < s_targetBattery ?s"
    by (simp add: o2(2) kiosk_at_35_fields or_zero_def tg)
  note t = tick_running[OF o2(1) st b, of 7201000 live_backend live_backend]
  have h3: "simulateCharging 7201000 live_backend (hardware k2)
     = \<lparr>h_chargingActive = True, h_currentBattery = 65, h_targetBattery = 75, h_startTime = 5401000,
        h_energyDelivered = 1000, h_startCharging_calls = 1\<rparr>"
    by (simp add: h2 simulateCharging_def Let_def)
  obtain x where x: "SESSIONS (db k1) = [x]" "s_id x = 1000" "s_status x = in_progress"
    using f(3) f(7) by (cases "SESSIONS (db k1)") auto
  have e3: "map s_energyDelivered (SESSIONS (db (metering_tick 7201000 live_backend live_backend k2))) = [1000]"
    and s3: "map s_status (SESSIONS (db (metering_tick 7201000 live_backend live_backend k2))) = [in_progress]"
    by (simp_all add: t(2) o2(3) x sid h3 getEnergyDelivered_def)
  have g3: "getEnergyDelivered (hardware (metering_tick 7201000 live_backend live_backend k2)) = 1000"
    by (simp add: t(1) h3 getEnergyDelivered_def)
  have r1: "run [Confirm 1000 live_backend, Tick 3601000 live_backend live_backend] kiosk_at_35 = k1"
    by (simp add: k1_def kiosk_started_def)
  have r2: "run [Confirm 1000 live_backend, Tick 3601000 live_backend live_backend,
                           Message 5401000 started_event, Tick 7201000 live_backend live_backend]
                        kiosk_at_35 = metering_tick 7201000 live_backend live_backend k2"
    by (simp add: k1_def k2_def kiosk_started_def)
  show ?thesis
    unfolding r1 r2 using f(2,3) e3 s3 g3 by (simp add: f(1) getEnergyDelivered_def)
qed





text \<open>
  Claim C5, amended. While the page runs, for every pair of consecutive metering ticks
  at times \<open>now1 \<le> now2\<close>, with a charge that started no later than \<open>now1\<close> and with
  any events between the two ticks that give the charge no new start (no confirmation,
  no scan answered with the action \<open>started\<close>, no \<open>charging_started\<close> event of the
  stream), the energy delivered and the battery level of the hardware service after the
  second tick are at least what they are after the first, and so is the energy the store
  records for the current session, whatever the backend answers.
\<close>

theorem consecutive_ticks_monotone:
  assumes "h_startTime (hardware k) \<le> now1" and "now1 \<le> now2"
    and "list_all keeps_charge_start es"
  shows "getEnergyDelivered (hardware (metering_tick now1 bk1 bk1' k))
           \<le> getEnergyDelivered
                (hardware (metering_tick now2 bk2 bk2' (run es (metering_tick now1 bk1 bk1' k))))
       \<and> h_currentBattery (hardware (metering_tick now1 bk1 bk1' k))
           \<le> h_currentBattery
                (hardware (metering_tick now2 bk2 bk2' (run es (metering_tick now1 bk1 bk1' k))))
       \<and> (recorded_energy (metering_tick now1 bk1 bk1' k) = Some e1
            \<and> recorded_energy (metering_tick now2 bk2 bk2' (run es (metering_tick now1 bk1 bk1' k)))
                = Some e2
            \<longrightarrow> e1 \<le> e2)"
proof -
  define k1 where "k1 = metering_tick now1 bk1 bk1' k"
  define g where "g = run es k1"
  define k2 where "k2 = metering_tick now2 bk2 bk2' g"
  have n: "same_charge (hardware k1) (hardware g)" "session_kept k1 g"
    using neutral_run[OF assms(3), of k1] by (simp_all add: g_def)
  have hw: "h_energyDelivered (hardware k1) \<le> h_energyDelivered (hardware k2)
          \<and> h_currentBattery (hardware k1) \<le> h_currentBattery (hardware k2)"
  proof (cases "tick_fires g")
    case False
    then have "k2 = g" by (simp add: k2_def tick_idle)
    then show ?thesis using same_charge_values[OF n(1)] by simp
  next
    case True
    have f1: "tick_fires k"
    proof (rule ccontr)
      assume "\<not> tick_fires k"
      then have "k1 = k" by (simp add: k1_def tick_idle)
      then have "\<not> tick_fires k1" using \<open>\<not> tick_fires k\<close> by simp
      then show False using session_kept_fires[OF n(2)] True by simp
    qed
    have a: "same_charge (simulateCharging now1 bk1 (hardware k)) (hardware g)"
      using same_charge_trans[OF tick_hardware[OF f1, of now1 bk1 bk1'] n(1)[unfolded k1_def]] .
    note b = second_tick_hardware[OF assms(1,2) a, of bk2]
    have c: "same_charge (simulateCharging now2 bk2 (hardware g)) (hardware k2)"
      unfolding k2_def by (rule tick_hardware[OF True])
    show ?thesis
      using b same_charge_values[OF n(1)] same_charge_values[OF c] by simp
  qed
  have rec: "e1 \<le> e2" if r1: "recorded_energy k1 = Some e1" and r2: "recorded_energy k2 = Some e2"
  proof (cases "tick_fires g")
    case False
    then have "k2 = g" by (simp add: k2_def tick_idle)
    then show ?thesis using session_kept_recorded[OF n(2)] r1 r2 by auto
  next
    case True
    have f1: "tick_fires k"
    proof (rule ccontr)
      assume "\<not> tick_fires k"
      then have "k1 = k" by (simp add: k1_def tick_idle)
      then have "\<not> tick_fires k1" using \<open>\<not> tick_fires k\<close> by simp
      then show False using session_kept_fires[OF n(2)] True by simp
    qed
    have "e1 = getEnergyDelivered (simulateCharging now1 bk1 (hardware k))"
      using tick_recorded[OF f1, of now1 bk1 bk1'] r1 by (auto simp: k1_def)
    then have e1: "e1 = h_energyDelivered (hardware k1)"
      using same_charge_values[OF tick_hardware[OF f1, of now1 bk1 bk1']]
      by (simp add: k1_def getEnergyDelivered_def)
    have "e2 = getEnergyDelivered (simulateCharging now2 bk2 (hardware g))"
      using tick_recorded[OF True, of now2 bk2 bk2'] r2 by (auto simp: k2_def)
    then have e2: "e2 = h_energyDelivered (hardware k2)"
      using same_charge_values[OF tick_hardware[OF True, of now2 bk2 bk2']]
      by (simp add: k2_def getEnergyDelivered_def)
    show ?thesis using hw by (simp add: e1 e2)
  qed
  show ?thesis
    using hw rec by (simp add: k1_def[symmetric] g_def[symmetric] k2_def[symmetric] getEnergyDelivered_def)
qed

theorem consecutive_ticks_monotone_witness:
  "h_startTime (hardware kiosk_started) \<le> 3601000 \<and> (3601000::int) \<le> 7201000
   \<and> list_all keeps_charge_start [RefreshBattery (1 / 2) (1 / 2), Message 5401000 unfunded_event]
   \<and> getEnergyDelivered (hardware (metering_tick 3601000 live_backend live_backend kiosk_started)) = 2000
   \<and> h_currentBattery (hardware (metering_tick 3601000 live_backend live_backend kiosk_started)) = 55
   \<and> getEnergyDelivered (hardware (metering_tick 3601000 live_backend live_backend kiosk_started))
        \<le> getEnergyDelivered
             (hardware (metering_tick 7201000 live_backend live_backend
                (run [RefreshBattery (1 / 2) (1 / 2), Message 5401000 unfunded_event]
                   (metering_tick 3601000 live_backend live_backend kiosk_started))))
   \<and> h_currentBattery (hardware (metering_tick 3601000 live_backend live_backend kiosk_started))
        \<le> h_currentBattery
             (hardware (metering_tick 7201000 live_backend live_backend
                (run [RefreshBattery (1 / 2) (1 / 2), Message 5401000 unfunded_event]
                   (metering_tick 3601000 live_backend live_backend kiosk_started))))"
proof -
  have a: "h_startTime (hardware kiosk_started) \<le> 3601000" by (simp add: kiosk_started_fields(4))
  have b: "(3601000::int) \<le> 7201000" by simp
  have c: "list_all keeps_charge_start [RefreshBattery (1 / 2) (1 / 2), Message 5401000 unfunded_event]"
    by (simp add: unfunded_event_def)
  note t = consecutive_ticks_monotone[OF a b c, of live_backend live_backend live_backend live_backend]
  show ?thesis
    using a b c t by (simp add: first_tick(1) getEnergyDelivered_def)
qed

subsection \<open>Rejected cards and the relay\<close>

text \<open>
  Claim C6. A rejected presentation does not call \<open>hardware.startCharging\<close>: a scan
  that reads no card or a card no user has, an amount above the balance of the user, and
  an event of the stream that reports an unknown card or an insufficient balance all
  leave the number of calls of \<open>startCharging\<close>, the current user and the selected
  amount as they were. No step other than a confirmation calls \<open>startCharging\<close>.
\<close>

theorem rejection_never_starts_charging:
  "((case fst (hardware_scanRfid now bk (hardware k)) of
       None \<Rightarrow> True | Some c \<Rightarrow> fst (getUserByRfid c (db k)) = None)
     \<longrightarrow> h_startCharging_calls (hardware (scanRfid now bk k)) = h_startCharging_calls (hardware k)
         \<and> currentUser (scanRfid now bk k) = currentUser k
         \<and> selectedAmount (scanRfid now bk k) = selectedAmount k)
   \<and> (amount > balance_or_zero (currentUser k)
     \<longrightarrow> handleAmountSelect amount k = k
         \<and> hardware (handleCustomAmount (Some amount) k) = hardware k
         \<and> currentUser (handleCustomAmount (Some amount) k) = currentUser k)
   \<and> ((re_type ev = insufficient_balance
        \<or> (re_type ev = rfid_detected \<and> (\<not> re_success ev \<or> re_user ev = None)))
     \<longrightarrow> h_startCharging_calls (hardware (rfid_message now ev k)) = h_startCharging_calls (hardware k)
         \<and> currentUser (rfid_message now ev k) = currentUser k
         \<and> selectedAmount (rfid_message now ev k) = selectedAmount k)
   \<and> (case e of Confirm now' bk' \<Rightarrow> True
       | _ \<Rightarrow> h_startCharging_calls (hardware (step e k)) = h_startCharging_calls (hardware k))"
proof -
  have 1: "h_startCharging_calls (hardware (scanRfid now bk k)) = h_startCharging_calls (hardware k)"
    by (simp add: scanRfid_hardware hardware_scanRfid_calls)
  have 2: "handleAmountSelect amount k = k" if "amount > balance_or_zero (currentUser k)"
    using that by (simp add: handleAmountSelect_def)
  have 3: "hardware (handleCustomAmount (Some amount) k) = hardware k"
    "currentUser (handleCustomAmount (Some amount) k) = currentUser k"
    by (simp_all add: handleCustomAmount_def)
  show ?thesis
    using 1 2 3 scanRfid_rejected scanRfid_other(1) rfid_message_calls rfid_message_rejected
      step_calls[of e k]
    by (intro conjI impI) simp_all
qed



theorem rejection_never_starts_charging_witness:
  "fst (hardware_scanRfid 7 live_backend (hardware kiosk_at_35)) = Some ''RFID999''
   \<and> fst (getUserByRfid ''RFID999'' (db kiosk_at_35)) = None
   \<and> h_startCharging_calls (hardware (scanRfid 7 live_backend kiosk_at_35)) = 0
   \<and> currentUser (scanRfid 7 live_backend kiosk_at_35) = Some (DEFAULT_USERS_init 0 ! 0)
   \<and> 500 > balance_or_zero (currentUser kiosk_at_35)
   \<and> handleAmountSelect 500 kiosk_at_35 = kiosk_at_35
   \<and> re_type unfunded_event = insufficient_balance
   \<and> h_startCharging_calls (hardware (rfid_message 7 unfunded_event kiosk_at_35)) = 0
   \<and> h_startCharging_calls (hardware (step (Tick 9 mock_backend mock_backend) kiosk_at_35)) = 0"
proof -
  have a: "fst (hardware_scanRfid 7 live_backend (hardware kiosk_at_35)) = Some ''RFID999''"
    by (simp add: hardware_scanRfid_def live_backend_def checkBackendAvailable_def)
  have b: "fst (getUserByRfid ''RFID999'' (db kiosk_at_35)) = None"
    by (simp add: getUserByRfid_fst kiosk_at_35_db users_of_stored_install DEFAULT_USERS_init_def)
  have c: "500 > balance_or_zero (currentUser kiosk_at_35)"
    by (simp add: kiosk_at_35_fields balance_or_zero_def DEFAULT_USERS_init_def)
  have d: "re_type unfunded_event = insufficient_balance" by (simp add: unfunded_event_def)
  show ?thesis
    using a b c d
      rejection_never_starts_charging[where now = 7 and bk = live_backend and k = kiosk_at_35
        and amount = 500 and ev = unfunded_event and e = "Tick 9 mock_backend mock_backend"]
    by (simp add: kiosk_at_35_fields hardware_init_def)
qed

subsection \<open>The target battery level\<close>

text \<open>
  Claim C7. The session \<open>handleConfirm\<close> creates has the target
  \<open>min(startBattery + (paidAmount / fullChargeCost) * 100, 100)\<close>, which is also the
  target handed to the hardware service, and \<open>calculateTargetBattery\<close> computes that
  formula; for a start of 35, an amount of 40 and a full charge cost of 100 the target
  is 75. The full charge cost is not 0.
\<close>

theorem target_battery_formula:
  assumes "selectedAmount k = Some amount" and "amount \<noteq> 0" and "currentUser k = Some user"
    and "fullChargeCost (settings k) \<noteq> 0"
  shows "(\<exists>session. currentSession (handleConfirm now bk k) = Some session
            \<and> s_paidAmount session = amount
            \<and> s_targetBattery session
                = min (s_startBattery session
                        + (s_paidAmount session / fullChargeCost (settings k)) * 100) 100
            \<and> h_targetBattery (hardware (handleConfirm now bk k)) = s_targetBattery session)
       \<and> calculateTargetBattery (fullChargeCost (settings k)) startBattery paidAmount
            = min (startBattery + (paidAmount / fullChargeCost (settings k)) * 100) 100
       \<and> calculateTargetBattery 100 35 40 = 75"
proof -
  have "calculateTargetBattery 100 35 40 = 75" by (simp add: calculateTargetBattery_def)
  moreover have "calculateTargetBattery (fullChargeCost (settings k)) startBattery paidAmount
            = min (startBattery + (paidAmount / fullChargeCost (settings k)) * 100) 100"
    using assms(4) by (simp add: calculateTargetBattery_def)
  moreover have "s_targetBattery (new_session now user amount k)
                = min (s_startBattery (new_session now user amount k)
                        + (s_paidAmount (new_session now user amount k) / fullChargeCost (settings k)) * 100) 100"
    using assms(4) by (simp add: new_session_def calculateTargetBattery_def)
  moreover have "s_paidAmount (new_session now user amount k) = amount" by (simp add: new_session_def)
  ultimately show ?thesis
    using handleConfirm_currentSession[OF assms(1-3)] handleConfirm_hardware[OF assms(1-3)]
    by (simp add: startCharging_target)
qed

theorem target_battery_formula_witness:
  "selectedAmount kiosk_at_35 = Some 40 \<and> (40::real) \<noteq> 0
   \<and> currentUser kiosk_at_35 = Some (DEFAULT_USERS_init 0 ! 0)
   \<and> fullChargeCost (settings kiosk_at_35) = 100
   \<and> map_option s_targetBattery (currentSession (handleConfirm 1000 mock_backend kiosk_at_35)) = Some 75
   \<and> map_option s_startBattery (currentSession (handleConfirm 1000 mock_backend kiosk_at_35)) = Some 35
   \<and> h_targetBattery (hardware (handleConfirm 1000 mock_backend kiosk_at_35)) = 75"
proof -
  have a: "selectedAmount kiosk_at_35 = Some 40" "currentUser kiosk_at_35 = Some (DEFAULT_USERS_init 0 ! 0)"
    and f: "fullChargeCost (settings kiosk_at_35) = 100"
    and b: "batteryStatus kiosk_at_35 = Some \<lparr>b_percentage = 35, b_voltage = 50, b_current = 0, b_power = 0\<rparr>"
    by (simp_all add: kiosk_at_35_def kiosk_init_def DEFAULT_SETTINGS_def)
  have n: "(40::real) \<noteq> 0" by simp
  have f0: "fullChargeCost (settings kiosk_at_35) \<noteq> 0" by (simp add: f)
  obtain session where s: "currentSession (handleConfirm 1000 mock_backend kiosk_at_35) = Some session"
    "s_paidAmount session = 40"
    "s_targetBattery session = min (s_startBattery session + (s_paidAmount session / fullChargeCost (settings kiosk_at_35)) * 100) 100"
    "h_targetBattery (hardware (handleConfirm 1000 mock_backend kiosk_at_35)) = s_targetBattery session"
    using target_battery_formula[OF a(1) n a(2) f0, of 1000 mock_backend] by blast
  have "session = new_session 1000 (DEFAULT_USERS_init 0 ! 0) 40 kiosk_at_35"
    using s(1) handleConfirm_currentSession[OF a(1) n a(2), of 1000 mock_backend] by simp
  then have sb: "s_startBattery session = 35" by (simp add: new_session_def b or_zero_def)
  show ?thesis using a f s sb by simp
qed

subsection \<open>Writing a balance and reading it back\<close>

text \<open>
  Claim C8. For every user id that \<open>getUsers\<close> shows in the store and every new balance,
  \<open>updateUserBalance\<close> followed at once by a read returns the balance just written:
  looking the id up in \<open>getUsers()\<close> gives the user with the new balance, and so does
  \<open>getUserByRfid\<close> with the card of that user, whenever that card led to the user before
  the write. The names in \<open>DEFAULT_USERS\<close> are the ones the module starts with.
\<close>

theorem updateUserBalance_read_back:
  assumes "defaults_named d"
    and "find (\<lambda>u. u_id u = userId) (users_of d) = Some user"
  shows "find (\<lambda>u. u_id u = userId) (users_of (updateUserBalance userId newBalance d))
           = Some (user\<lparr>u_balance := newBalance\<rparr>)
       \<and> (fst (getUserByRfid (u_rfidCardId user) d) = Some user \<longrightarrow>
            fst (getUserByRfid (u_rfidCardId user) (updateUserBalance userId newBalance d))
              = Some (user\<lparr>u_balance := newBalance\<rparr>))"
proof -
  let ?P = "\<lambda>u. u_id u = userId"
  let ?f = "\<lambda>u. u\<lparr>u_balance := newBalance\<rparr>"
  have u: "users_of (updateUserBalance userId newBalance d) = upd_first ?P ?f (users_of d)"
    using assms by (rule updateUserBalance_users_of)
  have r: "\<And>c e. fst (getUserByRfid c e) = find (\<lambda>u. u_rfidCardId u = c) (users_of e)"
    by (simp add: getUserByRfid_def users_of_def split: prod.splits)
  have 1: "find ?P (upd_first ?P ?f (users_of d)) = Some (?f user)"
    using assms(2) by (simp add: find_upd_first_same)
  have 2: "find (\<lambda>u. u_rfidCardId u = u_rfidCardId user) (upd_first ?P ?f (users_of d)) = Some (?f user)"
    if h: "find (\<lambda>u. u_rfidCardId u = u_rfidCardId user) (users_of d) = Some user"
    using find_upd_first_other[OF assms(2) h, of ?f] by simp
  show ?thesis using 1 2 by (simp add: u r)
qed


theorem updateUserBalance_read_back_witness:
  "defaults_named (fresh_install 0)
   \<and> find (\<lambda>u. u_id u = ''2'') (users_of (fresh_install 0)) = Some (DEFAULT_USERS_init 0 ! 1)
   \<and> map_option u_balance (find (\<lambda>u. u_id u = ''2'') (users_of (updateUserBalance ''2'' 60 (fresh_install 0)))) = Some 60
   \<and> map_option u_balance (fst (getUserByRfid ''RFID002'' (updateUserBalance ''2'' 60 (fresh_install 0)))) = Some 60"
proof -
  have n: "defaults_named (fresh_install 0)"
    by (rule defaults_named_init[of _ 0]) (simp add: fresh_install_def)
  have f: "find (\<lambda>u. u_id u = ''2'') (users_of (fresh_install 0)) = Some (DEFAULT_USERS_init 0 ! 1)"
    by (simp add: users_of_fresh_install DEFAULT_USERS_init_def)
  have g: "fst (getUserByRfid (u_rfidCardId (DEFAULT_USERS_init 0 ! 1)) (fresh_install 0)) = Some (DEFAULT_USERS_init 0 ! 1)"
    by (simp add: getUserByRfid_def getUsers_def fresh_install_def map_fst_default_refs DEFAULT_USERS_init_def)
  have c: "u_rfidCardId (DEFAULT_USERS_init 0 ! 1) = ''RFID002''"
    by (simp add: DEFAULT_USERS_init_def)
  show ?thesis
    using n f g[unfolded c] updateUserBalance_read_back[OF n f, of 60, unfolded c] by simp
qed


subsection \<open>Debounce\<close>

text \<open>
  Claim C9. Two raw reads of the same token, the second less than the debounce window
  after the first, give exactly one identity event: from the initial state of the
  source, and from every state in which the first of the two reads is emitted. From any
  state they give at most one. This holds whether or not a read that is not emitted
  restarts the window.
\<close>

theorem debounce_one_event:
  assumes "t2 - t1 < window"
  shows "emitted window restart [(token, t1), (token, t2)] source_init = 1
       \<and> (fst (raw_read window restart token t1 src)
            \<longrightarrow> emitted window restart [(token, t1), (token, t2)] src = 1)
       \<and> emitted window restart [(token, t1), (token, t2)] src \<le> 1"
proof -
  have 1: "emitted window restart [(token, t1), (token, t2)] source_init = 1"
    by (simp add: raw_read_first raw_read_repeat[OF assms])
  have 2: "emitted window restart [(token, t1), (token, t2)] src = 1"
    if "fst (raw_read window restart token t1 src)"
  proof -
    from that have "raw_read window restart token t1 src = (True, \<lparr>lastToken = Some token, lastSeen = t1\<rparr>)"
      by (simp add: raw_read_def split: if_splits)
    then show ?thesis by (simp add: raw_read_repeat[OF assms])
  qed
  have 3: "emitted window restart [(token, t1), (token, t2)] src \<le> 1"
  proof (cases "fst (raw_read window restart token t1 src)")
    case True
    then show ?thesis using 2 by simp
  next
    case False
    then have "raw_read window restart token t1 src
                 = (False, if restart then src\<lparr>lastSeen := t1\<rparr> else src)"
      by (simp add: raw_read_def split: if_splits)
    then show ?thesis by (simp add: raw_read_def split: prod.splits)
  qed
  show ?thesis using 1 2 3 by blast
qed


theorem debounce_one_event_witness:
  "(11500::int) - 10000 < DEBOUNCE_DEFAULT
   \<and> emitted DEBOUNCE_DEFAULT False [(''RFID001'', 10000), (''RFID001'', 11500)] source_init = 1
   \<and> emitted DEBOUNCE_DEFAULT True [(''RFID001'', 10000), (''RFID001'', 11500)] source_init = 1
   \<and> fst (raw_read DEBOUNCE_DEFAULT False ''RFID001'' 10000 \<lparr>lastToken = Some ''RFID002'', lastSeen = 9900\<rparr>)
   \<and> emitted DEBOUNCE_DEFAULT False [(''RFID001'', 10000), (''RFID001'', 11500)]
        \<lparr>lastToken = Some ''RFID002'', lastSeen = 9900\<rparr> = 1"
proof -
  have w: "(11500::int) - 10000 < DEBOUNCE_DEFAULT" by (simp add: DEBOUNCE_DEFAULT_def)
  have f: "fst (raw_read DEBOUNCE_DEFAULT False ''RFID001'' 10000 \<lparr>lastToken = Some ''RFID002'', lastSeen = 9900\<rparr>)"
    by (simp add: raw_read_def)
  show ?thesis
    using w f debounce_one_event[OF w, of False "''RFID001''" "\<lparr>lastToken = Some ''RFID002'', lastSeen = 9900\<rparr>"]
      debounce_one_event[OF w, of True "''RFID001''" source_init]
    by simp
qed

subsection \<open>What a read of the user list does to the list\<close>

text \<open>
  Claim C10. Whatever the stored user list is, as long as \<open>DEFAULT_USERS\<close> holds what
  the module initialises it with, the list \<open>getUsers\<close> returns has no user named
  John Doe or Jane Smith, has users named Lalit Nikumbh, Fateen Shaikh and Nishad Deshmukh,
  and is the list the storage holds after the read; a default user whose name no stored
  user carries is in the result as \<open>DEFAULT_USERS\<close> has it, with its default balance.
\<close>

theorem getUsers_purges_and_provisions:
  assumes "DEFAULT_USERS d = DEFAULT_USERS_init loaded"
  shows "(\<forall>u \<in> set (users_of d). u_name u \<noteq> ''John Doe'' \<and> u_name u \<noteq> ''Jane Smith'')
       \<and> {''Lalit Nikumbh'', ''Fateen Shaikh'', ''Nishad Deshmukh''} \<subseteq> u_name ` set (users_of d)
       \<and> USERS (snd (getUsers d)) = Some (users_of d)
       \<and> (\<forall>defaultUser \<in> set (DEFAULT_USERS_init loaded).
             (case USERS d of None \<Rightarrow> True
              | Some users \<Rightarrow> u_name defaultUser \<notin> u_name ` set users)
             \<longrightarrow> defaultUser \<in> set (users_of d))"
proof -
  have n: "defaults_named d" using assms by (rule defaults_named_init)
  have 1: "\<forall>u \<in> set (users_of d). u_name u \<noteq> ''John Doe'' \<and> u_name u \<noteq> ''Jane Smith''"
    using users_of_no_JJ[OF n] by (simp add: not_JJ_def)
  have 2: "{''Lalit Nikumbh'', ''Fateen Shaikh'', ''Nishad Deshmukh''} \<subseteq> u_name ` set (users_of d)"
    using users_of_required[OF n] by (simp add: requiredUserNames_def)
  have 3: "USERS (snd (getUsers d)) = Some (users_of d)" by (rule getUsers_USERS)
  have 4: "defaultUser \<in> set (users_of d)"
    if m: "defaultUser \<in> set (DEFAULT_USERS_init loaded)"
      and c: "case USERS d of None \<Rightarrow> True | Some users \<Rightarrow> u_name defaultUser \<notin> u_name ` set users"
    for defaultUser
  proof (cases "USERS d")
    case None
    then show ?thesis using m assms by (simp add: users_of_eq)
  next
    case (Some users)
    define fu where "fu = filter not_JJ users"
    define mu where "mu = filter (\<lambda>u. u_name u \<notin> set (map u_name fu)) (DEFAULT_USERS d)"
    have "u_name defaultUser \<notin> set (map u_name fu)" using c Some by (auto simp: fu_def)
    then have i: "defaultUser \<in> set mu" using m assms by (simp add: mu_def)
    then have "mu \<noteq> []" by auto
    then have "users_of d = fu @ mu"
      using Some by (simp add: users_of_eq Let_def fu_def[symmetric] mu_def[symmetric] del: set_map)
    then show ?thesis using i by simp
  qed
  show ?thesis using 1 2 3 4 by blast
qed

theorem getUsers_purges_and_provisions_witness:
  "DEFAULT_USERS (legacy_install 5) = DEFAULT_USERS_init 5
   \<and> map u_name (users_of (legacy_install 5)) = [''Fateen Shaikh'', ''Lalit Nikumbh'', ''Nishad Deshmukh'']
   \<and> map u_balance (users_of (legacy_install 5)) = [20, 100, 90]
   \<and> USERS (snd (getUsers (legacy_install 5))) = Some (users_of (legacy_install 5))"
proof -
  have d: "DEFAULT_USERS (legacy_install 5) = DEFAULT_USERS_init 5" by (simp add: legacy_install_def)
  have u: "map u_name (users_of (legacy_install 5)) = [''Fateen Shaikh'', ''Lalit Nikumbh'', ''Nishad Deshmukh'']"
    "map u_balance (users_of (legacy_install 5)) = [20, 100, 90]"
    by (simp_all add: users_of_eq legacy_install_def DEFAULT_USERS_init_def not_JJ_def Let_def)
  show ?thesis using d u getUsers_purges_and_provisions[OF d] by simp
qed



end
